theory Spec2Isabelle
  imports Complex_Main "HOL-Library.Word" "HOL-Library.Sublist"
begin

unbundle bit_operations_syntax

section \<open>Codec: webVoiceUtils.ts\<close>

text \<open>
  An element of an Int16Array is a \<^typ>\<open>16 word\<close> read with \<^const>\<open>sint\<close>, an element
  of a Uint8Array an \<^typ>\<open>8 word\<close>.  A JavaScript number is the \<^typ>\<open>real\<close> it
  denotes, and the two roundings of the language are written out where the source
  performs them: the result of a division, a product, a sum or a difference of
  numbers is rounded to a double (\<open>toFloat64\<close>), and a store into a Float32Array
  rounds to single precision (\<open>toFloat32\<close>).
\<close>

type_synonym int16 = "16 word"
type_synonym uint8 = "8 word"

subsection \<open>Numbers\<close>

text \<open>
  IEEE 754 binary formats with \<open>p\<close> significand bits: the representable values
  around \<open>a\<close> are the multiples of \<open>2 ^ e\<close>, where \<open>e\<close> is the least exponent, not
  below that of the subnormal numbers, with \<open>a < 2 ^ (e + p)\<close>.  The search starts at
  the exponent of the subnormal numbers and is bounded by the number of binades of the
  format.
\<close>

fun grid_exponent :: "nat \<Rightarrow> nat \<Rightarrow> int \<Rightarrow> real \<Rightarrow> int" where
  "grid_exponent p 0 e a = e"
| "grid_exponent p (Suc n) e a =
     (if 2 powi (e + int p) \<le> a then grid_exponent p n (e + 1) a else e)"

text \<open>Rounding to the nearest integer, a tie going to the even one.\<close>

definition roundTiesToEven :: "real \<Rightarrow> int" where
  "roundTiesToEven r =
     (let f = \<lfloor>r\<rfloor>; d = r - of_int f
      in if d < 1 / 2 then f else if 1 / 2 < d then f + 1 else if even f then f else f + 1)"

definition round_to_format :: "nat \<Rightarrow> int \<Rightarrow> nat \<Rightarrow> real \<Rightarrow> real" where
  "round_to_format p emin binades v =
     (let e = grid_exponent p binades emin \<bar>v\<bar>
      in of_int (roundTiesToEven (v / 2 powi e)) * 2 powi e)"

text \<open>
  Single precision (24 bits, least exponent \<open>-149\<close>) and double precision (53 bits,
  least exponent \<open>-1074\<close>).  A result whose magnitude reaches \<open>2 ^ 128\<close> (single) or
  \<open>2 ^ 1024\<close> (double) is an infinity in JavaScript; \<open>overflows\<close> tells so for a
  double, and it is tested where the source can produce one.  NaN has no counterpart.
\<close>

definition toFloat32 :: "real \<Rightarrow> real" where
  "toFloat32 v = round_to_format 24 (- 149) 253 v"

definition toFloat64 :: "real \<Rightarrow> real" where
  "toFloat64 v = round_to_format 53 (- 1074) 2045 v"

definition overflows :: "real \<Rightarrow> bool" where
  "overflows v = (2 powi 1024 \<le> \<bar>toFloat64 v\<bar>)"

subsection \<open>PCM conversion\<close>

definition SAMPLE_RATE :: nat where
  "SAMPLE_RATE = 44100"

definition CHANNELS :: nat where
  "CHANNELS = 1"

text \<open>
  The conversion a store into an Int16Array applies to a number: truncate towards
  zero, then wrap modulo \<open>2 ^ 16\<close>.
\<close>

definition toInt16 :: "real \<Rightarrow> int16" where
  "toInt16 v = word_of_int (if v < 0 then - \<lfloor>- v\<rfloor> else \<lfloor>v\<rfloor>)"

text \<open>The loop body of \<open>floatTo16BitPCM\<close>, and the function on a whole array.\<close>

definition floatTo16BitPCM_sample :: "real \<Rightarrow> int16" where
  "floatTo16BitPCM_sample x =
     (let s = max (- 1) (min 1 x)
      in toInt16 (if s < 0 then toFloat64 (s * 32768) else toFloat64 (s * 32767)))"

definition floatTo16BitPCM :: "real list \<Rightarrow> int16 list" where
  "floatTo16BitPCM float32Array = map floatTo16BitPCM_sample float32Array"

text \<open>
  The loop body of \<open>convertPCMDataToFloat32\<close>, and the function on a whole array: the
  quotient is a double, and the store into \<open>float32Data\<close> rounds it to single precision.
\<close>

definition convertPCMDataToFloat32_sample :: "int16 \<Rightarrow> real" where
  "convertPCMDataToFloat32_sample w =
     toFloat32 (toFloat64 (real_of_int (sint w) / (if sint w < 0 then 32768 else 32767)))"

definition convertPCMDataToFloat32 :: "int16 list \<Rightarrow> real list" where
  "convertPCMDataToFloat32 pcm16Data = map convertPCMDataToFloat32_sample pcm16Data"

subsection \<open>linearToMuLaw\<close>

definition BIAS :: int where
  "BIAS = 0x84"

definition CLIP :: int where
  "CLIP = 32635"

text \<open>
  The loop \<open>for (; exponent > 0; exponent--) { if (sample & 0x4000) break; sample <<= 1; }\<close>:
  it returns the final exponent and the shifted sample.  The sample stays below
  \<open>2 ^ 15\<close>, so the 32-bit shift of JavaScript never wraps and is a shift on \<^typ>\<open>int\<close>.
\<close>

fun exponent_search :: "nat \<Rightarrow> int \<Rightarrow> nat \<times> int" where
  "exponent_search 0 sample = (0, sample)"
| "exponent_search (Suc e) sample =
     (if sample AND 0x4000 \<noteq> 0 then (Suc e, sample)
      else exponent_search e (push_bit 1 sample))"

definition linearToMuLaw_sample :: "int16 \<Rightarrow> uint8" where
  "linearToMuLaw_sample w =
     (let sample = sint w;
          sign = drop_bit 8 sample AND 0x80;
          sample = (if sign \<noteq> 0 then - sample else sample);
          sample = (if sample > CLIP then CLIP else sample);
          sample = sample + BIAS;
          (exponent, sample) = exponent_search 7 sample;
          mantissa = drop_bit 9 sample AND 0x0f;
          ulawByte = NOT (sign OR push_bit 4 (int exponent) OR mantissa)
      in word_of_int (ulawByte AND 0xff))"

definition linearToMuLaw :: "int16 list \<Rightarrow> uint8 list" where
  "linearToMuLaw pcm = map linearToMuLaw_sample pcm"

text \<open>
  The reference encoder the specification names: ITU-T G.711 mu-law for a 16-bit
  linear sample, written from the specification's words (sign extraction, clip
  ceiling 32635, bias 0x84, segment number as exponent, the four bits below the
  leading bit as mantissa, complemented output).  It is the encoder
  \<open>linearToMuLaw\<close> is compared with, and is not taken from the source.
\<close>

definition itu_mulaw_reference :: "int16 \<Rightarrow> uint8" where
  "itu_mulaw_reference w =
     (let x = sint w;
          sign = (if x < 0 then 0x80 else 0);
          magnitude = min \<bar>x\<bar> 32635 + 0x84;
          exponent = length (filter (\<lambda>k. 2 ^ (k + 8) \<le> magnitude) [0..<7]);
          mantissa = (magnitude div 2 ^ (exponent + 3)) mod 16
      in word_of_int (255 - (sign + 16 * int exponent + mantissa)))"

text \<open>\<open>getBase64Audio\<close> up to the base64 step: the mu-law bytes of a captured chunk.\<close>

definition getBase64Audio_bytes :: "real list \<Rightarrow> uint8 list" where
  "getBase64Audio_bytes audioData = linearToMuLaw (floatTo16BitPCM audioData)"

subsection \<open>Inbound decoding and resampling\<close>

text \<open>
  \<open>base64ToPCM16Data\<close>.  The browser's \<open>atob\<close> is not part of the repository and is a
  parameter: \<open>None\<close> is its exception on an invalid string.  The view
  \<open>new Int16Array(buffer)\<close> raises a RangeError on an odd byte length (\<open>None\<close>) and
  reads the bytes in pairs, low byte first.
\<close>

fun int16_pairs :: "uint8 list \<Rightarrow> int16 list" where
  "int16_pairs (lo # hi # bs) = (ucast lo OR push_bit 8 (ucast hi)) # int16_pairs bs"
| "int16_pairs bs = []"

definition base64ToPCM16Data :: "(string \<Rightarrow> uint8 list option) \<Rightarrow> string \<Rightarrow> int16 list option" where
  "base64ToPCM16Data atob base64Data =
     (case atob base64Data of
        None \<Rightarrow> None
      | Some view \<Rightarrow> if odd (length view) then None else Some (int16_pairs view))"

text \<open>
  \<open>resampleAudio\<close>.  Every arithmetic result is rounded to a double and every store
  into \<open>result\<close> to single precision.  \<open>None\<close> is the RangeError of
  \<open>new Float32Array(newLength)\<close> on a length that is negative, infinite or above
  \<open>2 ^ 53 - 1\<close> (a smaller limit of the engine is not modelled).  A zero
  \<open>originalSampleRate\<close> or a quotient that overflows makes the ratio infinite or NaN in
  JavaScript: the length is then NaN (an empty result) when the input is empty or the
  target rate is zero, and infinite (the exception) otherwise.
\<close>

definition resampleAudio :: "real list \<Rightarrow> real \<Rightarrow> real \<Rightarrow> real list option" where
  "resampleAudio audioData originalSampleRate targetSampleRate =
     (if originalSampleRate = 0 \<or> overflows (targetSampleRate / originalSampleRate)
      then (if audioData = [] \<or> targetSampleRate = 0 then Some [] else None)
      else
        let ratio = toFloat64 (targetSampleRate / originalSampleRate);
            newLength = \<lfloor>toFloat64 (real (length audioData) * ratio)\<rfloor>
        in if overflows (real (length audioData) * ratio) \<or> newLength < 0 \<or> 2 ^ 53 \<le> newLength
           then None
           else Some (map (\<lambda>i.
                  let position = toFloat64 (real i / ratio);
                      index = nat \<lfloor>position\<rfloor>;
                      fraction = toFloat64 (position - real index)
                  in if int index \<ge> int (length audioData) - 1
                     then toFloat32 (audioData ! (length audioData - 1))
                     else toFloat32 (toFloat64
                            (toFloat64 (audioData ! index * toFloat64 (1 - fraction)) +
                             toFloat64 (audioData ! (index + 1) * fraction))))
                [0..<nat newLength]))"

section \<open>The hook: useWebVoice.ts\<close>

subsection \<open>Data\<close>

type_synonym chunk = "real list"

datatype ready_state = CONNECTING | OPEN | CLOSING | CLOSED

text \<open>
  Which function installed a socket's handlers; for \<open>reconnect\<close>, whether the caller
  passed \<open>onConnectionSuccess\<close>.
\<close>

datatype origin = ByConnect | ByReconnect bool

text \<open>Who awaits \<open>startProcessing\<close>: the \<open>onopen\<close> handler of a socket, or the caller of \<open>startRecording\<close>.\<close>

datatype cont = FromOpen nat | FromCaller

datatype close_source = Server | Client

text \<open>The frames the hook sends; a media frame carries the mu-law bytes before base64.\<close>

datatype out_frame = Start | Media "uint8 list" real | TTS_PLAYING bool | EOC

text \<open>
  What the hook does to its collaborators, in the order it does it.  Sockets are
  numbered in the order in which they are constructed.  Calls of the logger are left out.
\<close>

datatype action =
    WsNew nat
  | WsSend nat out_frame
  | WsClose nat
  | OnClose close_source
  | OnException
  | OnConnectionSuccess
  | GetUserMedia nat
  | AddModule cont
  | TrackStop
  | StreamRelease
  | ContextNew
  | ContextClose
  | SourceStart chunk
  | SourceStop
  | SourceDisconnect
  | AnalyzerNew
  | AnalyzerConnectInput
  | AnalyzerStop
  | AnalyzerDestroy
  | CaptureConnect
  | WorkletNodeDisconnect
  | CaptureSourceDisconnect
  | LocationReload

text \<open>A parsed inbound message: \<open>message.event\<close>, \<open>message.media?.payload\<close>, \<open>message.sample_rate\<close>.\<close>

record message =
  event :: string
  payload :: "string option"
  sample_rate :: "real option"

text \<open>
  The data of a transport message under \<open>JSON.parse\<close>: an exception, a falsy value, or
  a message.
\<close>

datatype raw = Unparsable | Falsy | Parsed message

text \<open>
  The refs, the React state and the closure variables of one hook instance, with the
  two options the handlers read.  A ref that holds an object is a flag (the object is
  there or not); \<open>websocketRef\<close> holds the number of a socket; \<open>readyState\<close> and
  \<open>createdBy\<close> describe every socket constructed so far.  \<open>chunkReceivedAt\<close>, which
  is only logged, is left out.
\<close>

record state =
  websocketUrl :: string
  visualizerElementId :: string
  socketCount :: nat
  readyState :: "nat \<Rightarrow> ready_state"
  createdBy :: "nat \<Rightarrow> origin"
  websocketRef :: "nat option"
  audioContextRef :: bool
  sourceNodeRef :: bool
  isPlayingRef :: bool
  isFirstChunk :: bool
  streamRef :: bool
  isAudioNodesConnected :: bool
  isCleanedUp :: bool
  backendSampleRate :: real
  isStopReceived :: bool
  lastSentTTSEvent :: bool
  analyzerRef :: bool
  isConnected :: bool
  isPlaying :: bool
  isPlayingAudio :: bool
  audioBufferRef :: "chunk list"
  audioWorkletNode :: bool
  sourceNode :: bool

definition BUFFER_DURATION :: nat where
  "BUFFER_DURATION = 1"

definition bufferSize :: nat where
  "bufferSize = SAMPLE_RATE * CHANNELS * BUFFER_DURATION"

text \<open>The hook as mounted: nothing constructed, every flag at its initial value.\<close>

definition init :: "string \<Rightarrow> string \<Rightarrow> state" where
  "init url elementId =
     \<lparr> websocketUrl = url, visualizerElementId = elementId, socketCount = 0,
       readyState = (\<lambda>i. CLOSED), createdBy = (\<lambda>i. ByConnect), websocketRef = None,
       audioContextRef = False, sourceNodeRef = False, isPlayingRef = False,
       isFirstChunk = True, streamRef = False, isAudioNodesConnected = False,
       isCleanedUp = False, backendSampleRate = real SAMPLE_RATE, isStopReceived = False,
       lastSentTTSEvent = False, analyzerRef = False, isConnected = False,
       isPlaying = False, isPlayingAudio = False, audioBufferRef = [],
       audioWorkletNode = False, sourceNode = False \<rparr>"

subsection \<open>Sequencing\<close>

text \<open>
  A piece of a handler returns the new state, the actions it performed and whether it
  ended by throwing.  \<open>seq\<close> runs a second piece after a first unless the first threw;
  \<open>catch\<close> is a \<open>try\<close> block whose handler only logs.
\<close>

type_synonym outcome = "state \<times> action list \<times> bool"

definition ret :: "state \<Rightarrow> outcome" where
  "ret s = (s, [], False)"

definition emit :: "action \<Rightarrow> state \<Rightarrow> outcome" where
  "emit a s = (s, [a], False)"

definition emits :: "action list \<Rightarrow> state \<Rightarrow> outcome" where
  "emits as s = (s, as, False)"

definition throw :: "state \<Rightarrow> outcome" where
  "throw s = (s, [], True)"

definition seq :: "outcome \<Rightarrow> (state \<Rightarrow> outcome) \<Rightarrow> outcome" where
  "seq r f =
     (case r of (s, as, threw) \<Rightarrow>
        if threw then r else (case f s of (s', bs, t) \<Rightarrow> (s', as @ bs, t)))"

definition catch :: "outcome \<Rightarrow> outcome" where
  "catch r = (case r of (s, as, threw) \<Rightarrow> (s, as, False))"

subsection \<open>Collaborators\<close>

text \<open>
  \<open>ws.close()\<close> on socket \<open>i\<close>: an open or connecting socket starts closing, any other
  is left as it is.
\<close>

definition ws_close :: "nat \<Rightarrow> state \<Rightarrow> outcome" where
  "ws_close i s =
     emit (WsClose i)
       (s\<lparr>readyState := (readyState s)
            (i := (if readyState s i = OPEN \<or> readyState s i = CONNECTING
                   then CLOSING else readyState s i))\<rparr>)"

text \<open>
  \<open>ws.send(frame)\<close> on socket \<open>i\<close>: a connecting socket throws InvalidStateError;
  on a closing or closed socket the call is made and the browser drops the data.
\<close>

definition ws_send :: "nat \<Rightarrow> out_frame \<Rightarrow> state \<Rightarrow> outcome" where
  "ws_send i frame s =
     (if readyState s i = CONNECTING then throw s else emit (WsSend i frame) s)"

text \<open>\<open>websocketRef.current?.send(frame)\<close> and \<open>websocketRef.current?.close()\<close>.\<close>

definition ref_send :: "out_frame \<Rightarrow> state \<Rightarrow> outcome" where
  "ref_send frame s =
     (case websocketRef s of None \<Rightarrow> ret s | Some i \<Rightarrow> ws_send i frame s)"

definition ref_close :: "state \<Rightarrow> outcome" where
  "ref_close s = (case websocketRef s of None \<Rightarrow> ret s | Some i \<Rightarrow> ws_close i s)"

text \<open>\<open>new WebSocket(websocketUrl)\<close>, stored in \<open>websocketRef\<close>, with the handlers of \<open>og\<close>.\<close>

definition new_socket :: "origin \<Rightarrow> state \<Rightarrow> outcome" where
  "new_socket og s =
     (let i = socketCount s
      in emit (WsNew i)
           (s\<lparr>socketCount := Suc i, readyState := (readyState s)(i := CONNECTING),
              createdBy := (createdBy s)(i := og), websocketRef := Some i\<rparr>))"

subsection \<open>Audio context, visualizer, capture\<close>

definition getOrCreateAudioContext :: "state \<Rightarrow> outcome" where
  "getOrCreateAudioContext s =
     (if \<not> audioContextRef s then emit ContextNew (s\<lparr>audioContextRef := True\<rparr>) else ret s)"

definition initializeVisualizer :: "state \<Rightarrow> outcome" where
  "initializeVisualizer s =
     (if visualizerElementId s \<noteq> [] \<and> \<not> analyzerRef s \<and> \<not> isCleanedUp s
      then emit AnalyzerNew (s\<lparr>analyzerRef := True\<rparr>)
      else if analyzerRef s then emit AnalyzerConnectInput s else ret s)"

definition stopProcessing :: "state \<Rightarrow> outcome" where
  "stopProcessing s =
     seq (if audioWorkletNode s
          then emit WorkletNodeDisconnect (s\<lparr>audioWorkletNode := False\<rparr>) else ret s)
       (\<lambda>s. if sourceNode s
          then emit CaptureSourceDisconnect (s\<lparr>sourceNode := False\<rparr>) else ret s)"

text \<open>
  \<open>startProcessing\<close> and \<open>setupAudioStream\<close> await the browser (\<open>addModule\<close>,
  \<open>getUserMedia\<close>); other events run in between.  Each is split at its \<open>await\<close>: the
  part before it ends by issuing the request, and the browser's answer is an input of
  its own that runs the rest.  \<open>after_start\<close> is what the \<open>onopen\<close> handler of socket
  \<open>i\<close> does once \<open>startProcessing\<close> has returned.
\<close>

definition after_start :: "cont \<Rightarrow> state \<Rightarrow> outcome" where
  "after_start k s =
     (case k of
        FromCaller \<Rightarrow> ret s
      | FromOpen i \<Rightarrow>
          seq (ws_send i Start s)
            (\<lambda>s. if createdBy s i = ByReconnect True then emit OnConnectionSuccess s else ret s))"

definition startProcessing :: "cont \<Rightarrow> state \<Rightarrow> outcome" where
  "startProcessing k s =
     (if \<not> streamRef s then after_start k s
      else seq (getOrCreateAudioContext s) (emit (AddModule k)))"

definition addModule_resolved :: "cont \<Rightarrow> state \<Rightarrow> outcome" where
  "addModule_resolved k s =
     seq (if \<not> streamRef s then emit OnException s
          else emit CaptureConnect (s\<lparr>sourceNode := True, audioWorkletNode := True\<rparr>))
       (after_start k)"

definition addModule_rejected :: "cont \<Rightarrow> state \<Rightarrow> outcome" where
  "addModule_rejected k s = seq (emit OnException s) (after_start k)"

definition setupAudioStream :: "nat \<Rightarrow> state \<Rightarrow> outcome" where
  "setupAudioStream i s =
     (if isAudioNodesConnected s then startProcessing (FromOpen i) s
      else seq (if streamRef s then emit TrackStop s else ret s) (emit (GetUserMedia i)))"

definition getUserMedia_resolved :: "nat \<Rightarrow> state \<Rightarrow> outcome" where
  "getUserMedia_resolved i s =
     seq (getOrCreateAudioContext (s\<lparr>streamRef := True\<rparr>)) (\<lambda>s.
     seq (initializeVisualizer s) (\<lambda>s.
     startProcessing (FromOpen i) (s\<lparr>isAudioNodesConnected := True\<rparr>)))"

text \<open>
  The \<open>catch\<close> of \<open>setupAudioStream\<close>: the exception goes to \<open>onException\<close> and is
  thrown again, which ends the \<open>onopen\<close> handler.
\<close>

definition getUserMedia_rejected :: "nat \<Rightarrow> state \<Rightarrow> outcome" where
  "getUserMedia_rejected i s = seq (emit OnException s) throw"

text \<open>The \<open>port.onmessage\<close> handler of the worklet node: one captured chunk.\<close>

definition worklet_onmessage :: "real list \<Rightarrow> real \<Rightarrow> state \<Rightarrow> outcome" where
  "worklet_onmessage data timestamp s =
     (case websocketRef s of
        None \<Rightarrow> ret s
      | Some i \<Rightarrow>
          if readyState s i = OPEN
          then ws_send i (Media (getBase64Audio_bytes data) timestamp) s
          else ret s)"

subsection \<open>Playback\<close>

text \<open>
  The loop of \<open>playNextChunk\<close> that shifts chunks off \<open>audioBufferRef\<close> while the total is
  below \<open>bufferSize\<close>: it returns what is left of the queue, the chunks taken and their
  total length.
\<close>

fun take_chunks :: "chunk list \<Rightarrow> nat \<Rightarrow> chunk list \<Rightarrow> chunk list \<times> chunk list \<times> nat" where
  "take_chunks [] totalLength chunks = ([], chunks, totalLength)"
| "take_chunks (c # q) totalLength chunks =
     (if totalLength < bufferSize
      then take_chunks q (totalLength + length c) (chunks @ [c])
      else (c # q, chunks, totalLength))"

text \<open>
  The end of \<open>playNextChunk\<close>, from \<open>createBuffer\<close> on: \<open>createBuffer\<close> throws
  NotSupportedError on a length of zero; otherwise the source is created, shown to the
  visualizer, started and stored.
\<close>

definition play_buffer :: "chunk \<Rightarrow> state \<Rightarrow> outcome" where
  "play_buffer audioData s =
     (if audioData = [] then throw s
      else seq (initializeVisualizer s) (\<lambda>s.
           emit (SourceStart audioData) (s\<lparr>sourceNodeRef := True, isPlayingRef := True\<rparr>)))"

definition playNextChunk :: "state \<Rightarrow> outcome" where
  "playNextChunk s =
     seq (getOrCreateAudioContext s) (\<lambda>s.
       if isPlayingAudio s then ret s
       else if audioBufferRef s = [] then
         seq (ref_send (TTS_PLAYING False) (s\<lparr>isPlayingAudio := False, isPlaying := False\<rparr>)) (\<lambda>s.
           let s = s\<lparr>lastSentTTSEvent := False\<rparr>;
               silenceLength =
                 \<lfloor>toFloat64 (toFloat64 (backendSampleRate s * real BUFFER_DURATION) * 2)\<rfloor>
           in if silenceLength < 0 then throw s
              else play_buffer (replicate (nat silenceLength) 0) s)
       else
         seq (if \<not> lastSentTTSEvent s
              then seq (ref_send (TTS_PLAYING True) s) (\<lambda>s. ret (s\<lparr>lastSentTTSEvent := True\<rparr>))
              else ret s) (\<lambda>s.
           let s = s\<lparr>isPlayingAudio := True, isPlaying := True\<rparr>;
               (rest, chunks, totalLength) = take_chunks (audioBufferRef s) 0 []
           in play_buffer (concat chunks) (s\<lparr>audioBufferRef := rest\<rparr>)))"

text \<open>The \<open>onended\<close> handler of a playback source.\<close>

definition source_onended :: "state \<Rightarrow> outcome" where
  "source_onended s =
     (let s = s\<lparr>isPlayingAudio := False\<rparr>
      in if audioBufferRef s \<noteq> [] then playNextChunk s
         else seq (ref_send (TTS_PLAYING False) (s\<lparr>isPlaying := False\<rparr>)) (\<lambda>s.
              let s = s\<lparr>lastSentTTSEvent := False\<rparr>
              in if isStopReceived s then ref_close s else ret s))"

definition queued_samples :: "state \<Rightarrow> nat" where
  "queued_samples s = sum_list (map length (audioBufferRef s))"

text \<open>
  The chunk a media payload decodes to at the given declared rate, \<open>None\<close> when decoding
  or resampling throws.
\<close>

definition decode_chunk :: "(string \<Rightarrow> uint8 list option) \<Rightarrow> string \<Rightarrow> real \<Rightarrow> chunk option" where
  "decode_chunk atob base64 rate =
     (case base64ToPCM16Data atob base64 of
        None \<Rightarrow> None
      | Some pcm16Data \<Rightarrow>
          let float32Data = convertPCMDataToFloat32 pcm16Data
          in if rate = real SAMPLE_RATE then Some float32Data
             else resampleAudio float32Data rate (real SAMPLE_RATE))"

definition processAudioChunk :: "(string \<Rightarrow> uint8 list option) \<Rightarrow> string \<Rightarrow> state \<Rightarrow> outcome" where
  "processAudioChunk atob base64 s =
     seq (getOrCreateAudioContext s) (\<lambda>s.
       catch
         (case decode_chunk atob base64 (backendSampleRate s) of
            None \<Rightarrow> throw s
          | Some rightSampled \<Rightarrow>
              let s = s\<lparr>audioBufferRef := audioBufferRef s @ [rightSampled]\<rparr>
              in if queued_samples s \<ge> bufferSize then playNextChunk s else ret s))"

definition processAudioMessage :: "(string \<Rightarrow> uint8 list option) \<Rightarrow> message \<Rightarrow> state \<Rightarrow> outcome" where
  "processAudioMessage atob m s =
     catch
       (if event m = ''media'' \<and> payload m \<noteq> None \<and> payload m \<noteq> Some []
        then processAudioChunk atob (the (payload m))
               (s\<lparr>backendSampleRate :=
                    (case sample_rate m of None \<Rightarrow> real SAMPLE_RATE | Some r \<Rightarrow> r)\<rparr>)
        else if event m = ''barge'' \<or> event m = ''BARGE'' then ret (s\<lparr>audioBufferRef := []\<rparr>)
        else if event m = ''EOC'' then ref_send EOC s
        else if event m = ''stop'' then
          (case websocketRef s of
             None \<Rightarrow> ret s
           | Some i \<Rightarrow> if readyState s i = OPEN then ret (s\<lparr>isStopReceived := True\<rparr>) else ret s)
        else ret s)"

subsection \<open>Teardown, connect, reconnect\<close>

text \<open>
  The blocks \<open>cleanup\<close> and \<open>reconnect\<close> share word for word: "Clean up audio
  context", "Clean up audio source" and "Clean up media stream".
\<close>

definition cleanup_audio_context :: "state \<Rightarrow> outcome" where
  "cleanup_audio_context s =
     (if audioContextRef s then emit ContextClose (s\<lparr>audioContextRef := False\<rparr>) else ret s)"

definition cleanup_audio_source :: "state \<Rightarrow> outcome" where
  "cleanup_audio_source s =
     (if sourceNodeRef s
      then emits [SourceStop, SourceDisconnect] (s\<lparr>sourceNodeRef := False\<rparr>)
      else ret s)"

definition cleanup_media_stream :: "state \<Rightarrow> outcome" where
  "cleanup_media_stream s =
     (if streamRef s then emit StreamRelease (s\<lparr>streamRef := False\<rparr>) else ret s)"

text \<open>
  The blocks of \<open>cleanup\<close> alone: the socket is closed only when it is open or
  connecting, and the analyzer is stopped and destroyed but stays in \<open>analyzerRef\<close>.
\<close>

definition cleanup_websocket :: "state \<Rightarrow> outcome" where
  "cleanup_websocket s =
     (case websocketRef s of
        None \<Rightarrow> ret s
      | Some i \<Rightarrow>
          seq (if readyState s i = OPEN \<or> readyState s i = CONNECTING
               then ws_close i s else ret s)
            (\<lambda>s. ret (s\<lparr>websocketRef := None\<rparr>)))"

definition cleanup_analyzer :: "state \<Rightarrow> outcome" where
  "cleanup_analyzer s =
     (if analyzerRef s then emits [AnalyzerStop, AnalyzerDestroy] s else ret s)"

definition cleanup :: "close_source \<Rightarrow> state \<Rightarrow> outcome" where
  "cleanup source s =
     (if isCleanedUp s then ret s
      else
        seq (stopProcessing (s\<lparr>isCleanedUp := True\<rparr>)) (\<lambda>s.
        seq (cleanup_websocket s) (\<lambda>s.
        seq (cleanup_analyzer s) (\<lambda>s.
        seq (cleanup_audio_context s) (\<lambda>s.
        seq (cleanup_audio_source s) (\<lambda>s.
        seq (cleanup_media_stream s) (\<lambda>s.
        emit (OnClose source)
          (s\<lparr>audioBufferRef := [], isPlayingRef := False, isAudioNodesConnected := False,
             isFirstChunk := True, isPlayingAudio := False, isStopReceived := False,
             isPlaying := False, isConnected := False\<rparr>))))))))"

definition connect :: "state \<Rightarrow> outcome" where
  "connect s =
     (if websocketUrl s = [] \<or> websocketRef s \<noteq> None \<or> isCleanedUp s \<or> isConnected s
      then ret s
      else new_socket ByConnect (s\<lparr>isCleanedUp := False, isFirstChunk := True\<rparr>))"

definition disconnect :: "state \<Rightarrow> outcome" where
  "disconnect s = cleanup Client s"

text \<open>The blocks of \<open>reconnect\<close> alone: the socket is closed whatever its state.\<close>

definition reconnect_websocket :: "state \<Rightarrow> outcome" where
  "reconnect_websocket s =
     (case websocketRef s of
        None \<Rightarrow> ret s
      | Some i \<Rightarrow> seq (ws_close i s) (\<lambda>s. ret (s\<lparr>websocketRef := None\<rparr>)))"

definition reconnect_analyzer :: "state \<Rightarrow> outcome" where
  "reconnect_analyzer s =
     (if analyzerRef s
      then emits [AnalyzerStop, AnalyzerDestroy] (s\<lparr>analyzerRef := False\<rparr>)
      else ret s)"

definition reconnect :: "bool \<Rightarrow> state \<Rightarrow> outcome" where
  "reconnect onConnectionSuccess s =
     seq (reconnect_websocket s) (\<lambda>s.
     seq (ret (s\<lparr>isCleanedUp := False, isFirstChunk := True, isPlayingRef := False,
                isAudioNodesConnected := False, isPlayingAudio := False,
                isStopReceived := False, isConnected := False, isPlaying := False,
                audioBufferRef := []\<rparr>)) (\<lambda>s.
     seq (cleanup_audio_context s) (\<lambda>s.
     seq (cleanup_audio_source s) (\<lambda>s.
     seq (reconnect_analyzer s) (\<lambda>s.
     seq (cleanup_media_stream s) (\<lambda>s.
     seq (stopProcessing s) (\<lambda>s.
     if websocketUrl s = [] then ret s
     else new_socket (ByReconnect onConnectionSuccess) s)))))))"

subsection \<open>Socket handlers\<close>

text \<open>
  The handlers \<open>connect\<close> and \<open>reconnect\<close> install on socket \<open>i\<close>.  The two sets differ
  in \<open>onmessage\<close> (only that of \<open>reconnect\<close> reports a parse failure to \<open>onException\<close>)
  and at the end of \<open>onopen\<close> (\<open>onConnectionSuccess\<close>); \<open>createdBy\<close> tells which set
  a socket has.  \<open>ws_onopen\<close> runs up to the first \<open>await\<close>.
\<close>

definition ws_onopen :: "nat \<Rightarrow> state \<Rightarrow> outcome" where
  "ws_onopen i s =
     (if isCleanedUp s then ws_close i s
      else setupAudioStream i (s\<lparr>isConnected := True\<rparr>))"

definition ws_onmessage :: "(string \<Rightarrow> uint8 list option) \<Rightarrow> nat \<Rightarrow> raw \<Rightarrow> state \<Rightarrow> outcome" where
  "ws_onmessage atob i data s =
     (if isCleanedUp s then ret s
      else case data of
             Unparsable \<Rightarrow> if createdBy s i = ByConnect then ret s else emit OnException s
           | Falsy \<Rightarrow> ret s
           | Parsed m \<Rightarrow> processAudioMessage atob m s)"

definition ws_onclose :: "nat \<Rightarrow> bool \<Rightarrow> state \<Rightarrow> outcome" where
  "ws_onclose i link_expired s =
     seq (if link_expired then emit LocationReload s else ret s) (\<lambda>s.
     seq (if \<not> isCleanedUp s then cleanup Server s else ret s)
       stopProcessing)"

definition ws_onerror :: "nat \<Rightarrow> state \<Rightarrow> outcome" where
  "ws_onerror i s =
     seq (emit OnException s) (\<lambda>s. if \<not> isCleanedUp s then cleanup Server s else ret s)"

subsection \<open>Inputs and runs\<close>

text \<open>
  What reaches the hook: the caller's calls, the events of a socket, the answers of
  the browser to \<open>getUserMedia\<close> and \<open>addModule\<close>, the end of a playback source and a
  chunk from the capture worklet.  \<open>WsClosed i r\<close> is the close event of socket \<open>i\<close>,
  \<open>r\<close> telling whether its reason is \<open>LINK_EXPIRED\<close>.
\<close>

datatype input =
    Connect
  | Disconnect
  | Reconnect bool
  | StartRecording
  | StopRecording
  | WsOpen nat
  | WsMessage nat raw
  | WsClosed nat bool
  | WsError nat
  | GumResolved nat
  | GumRejected nat
  | ModuleResolved cont
  | ModuleRejected cont
  | SourceEnded
  | WorkletData "real list" real

text \<open>
  One input: the browser first moves the socket of an open or close event to its new
  ready state, then the handler runs.  An exception that leaves a handler ends it.
\<close>

fun fire :: "(string \<Rightarrow> uint8 list option) \<Rightarrow> input \<Rightarrow> state \<Rightarrow> outcome" where
  "fire atob Connect s = connect s"
| "fire atob Disconnect s = disconnect s"
| "fire atob (Reconnect cb) s = reconnect cb s"
| "fire atob StartRecording s = startProcessing FromCaller s"
| "fire atob StopRecording s = stopProcessing s"
| "fire atob (WsOpen i) s = ws_onopen i (s\<lparr>readyState := (readyState s)(i := OPEN)\<rparr>)"
| "fire atob (WsMessage i data) s = ws_onmessage atob i data s"
| "fire atob (WsClosed i r) s = ws_onclose i r (s\<lparr>readyState := (readyState s)(i := CLOSED)\<rparr>)"
| "fire atob (WsError i) s = ws_onerror i s"
| "fire atob (GumResolved i) s = getUserMedia_resolved i s"
| "fire atob (GumRejected i) s = getUserMedia_rejected i s"
| "fire atob (ModuleResolved k) s = addModule_resolved k s"
| "fire atob (ModuleRejected k) s = addModule_rejected k s"
| "fire atob SourceEnded s = source_onended s"
| "fire atob (WorkletData data timestamp) s = worklet_onmessage data timestamp s"

fun run :: "(string \<Rightarrow> uint8 list option) \<Rightarrow> state \<Rightarrow> input list \<Rightarrow> state \<times> action list" where
  "run atob s [] = (s, [])"
| "run atob s (e # es) =
     (case fire atob e s of (s', as, threw) \<Rightarrow>
        (case run atob s' es of (s'', bs) \<Rightarrow> (s'', as @ bs)))"

fun is_reconnect :: "input \<Rightarrow> bool" where
  "is_reconnect (Reconnect cb) = True"
| "is_reconnect e = False"



fun is_WsNew :: "action \<Rightarrow> bool" where
  "is_WsNew (WsNew i) = True"
| "is_WsNew a = False"

fun is_WsClose :: "action \<Rightarrow> bool" where
  "is_WsClose (WsClose i) = True"
| "is_WsClose a = False"


text \<open>How often an action of a given kind occurs in a run.\<close>

definition occurrences :: "(action \<Rightarrow> bool) \<Rightarrow> action list \<Rightarrow> nat" where
  "occurrences P as = length (filter P as)"

text \<open>
  The actions that release a resource the hook owns or notify the caller of the
  closure: in the source only \<open>cleanup\<close> and \<open>reconnect\<close> perform them.
\<close>

fun teardown_only :: "action \<Rightarrow> bool" where
  "teardown_only (OnClose source) = True"
| "teardown_only ContextClose = True"
| "teardown_only StreamRelease = True"
| "teardown_only SourceStop = True"
| "teardown_only SourceDisconnect = True"
| "teardown_only AnalyzerStop = True"
| "teardown_only AnalyzerDestroy = True"
| "teardown_only a = False"

text \<open>
  What the body of \<open>cleanup\<close> does, read off the state it starts in: every block acts
  on a resource no earlier block touches.
\<close>

definition cleanup_actions :: "close_source \<Rightarrow> state \<Rightarrow> action list" where
  "cleanup_actions source s =
     (if audioWorkletNode s then [WorkletNodeDisconnect] else []) @
     (if sourceNode s then [CaptureSourceDisconnect] else []) @
     (case websocketRef s of
        None \<Rightarrow> []
      | Some i \<Rightarrow>
          if readyState s i = OPEN \<or> readyState s i = CONNECTING then [WsClose i] else []) @
     (if analyzerRef s then [AnalyzerStop, AnalyzerDestroy] else []) @
     (if audioContextRef s then [ContextClose] else []) @
     (if sourceNodeRef s then [SourceStop, SourceDisconnect] else []) @
     (if streamRef s then [StreamRelease] else []) @
     [OnClose source]"





text \<open>
  A piece of a handler is quiet when it leaves the teardown marker as it is, performs
  no teardown action and constructs no socket.
\<close>

definition quiet :: "state \<Rightarrow> outcome \<Rightarrow> bool" where
  "quiet s r =
     (isCleanedUp (fst r) = isCleanedUp s \<and>
      filter teardown_only (fst (snd r)) = [] \<and> filter is_WsNew (fst (snd r)) = [])"


text \<open>
  The inputs that move the playback queue forward: an inbound message and the end of
  a playback source.
\<close>

fun is_playback_input :: "input \<Rightarrow> bool" where
  "is_playback_input (WsMessage i data) = True"
| "is_playback_input SourceEnded = True"
| "is_playback_input e = False"


text \<open>The chunks that the media messages among the inputs decode to, in the order of arrival.\<close>

fun inbound_chunk :: "(string \<Rightarrow> uint8 list option) \<Rightarrow> input \<Rightarrow> chunk list" where
  "inbound_chunk atob (WsMessage i (Parsed m)) =
     (if event m = ''media'' \<and> payload m \<noteq> None \<and> payload m \<noteq> Some []
      then (case decode_chunk atob (the (payload m))
                   (case sample_rate m of None \<Rightarrow> real SAMPLE_RATE | Some r \<Rightarrow> r) of
              None \<Rightarrow> []
            | Some c \<Rightarrow> [c])
      else [])"
| "inbound_chunk atob e = []"

definition inbound_chunks :: "(string \<Rightarrow> uint8 list option) \<Rightarrow> input list \<Rightarrow> chunk list" where
  "inbound_chunks atob es = concat (map (inbound_chunk atob) es)"

text \<open>
  A relation between the state before and after a piece of a handler, and a property of
  every action the piece performs.
\<close>

definition holds :: "(state \<Rightarrow> state \<Rightarrow> bool) \<Rightarrow> (action \<Rightarrow> bool) \<Rightarrow> state \<Rightarrow> outcome \<Rightarrow> bool" where
  "holds R P s r = (R s (fst r) \<and> list_all P (fst (snd r)))"

text \<open>
  What playback keeps: a pending stop stays pending, the socket in \<open>websocketRef\<close>
  stays, socket \<open>i\<close> does not go back to connecting, and the queue only loses chunks
  at its front.
\<close>

definition pending_rel :: "nat \<Rightarrow> state \<Rightarrow> state \<Rightarrow> bool" where
  "pending_rel i s s' =
     ((isStopReceived s' \<or> \<not> isStopReceived s) \<and>
      websocketRef s' = websocketRef s \<and>
      (readyState s' i \<noteq> CONNECTING \<or> readyState s i = CONNECTING))"

definition playback_rel :: "nat \<Rightarrow> state \<Rightarrow> state \<Rightarrow> bool" where
  "playback_rel i s s' =
     (suffix (audioBufferRef s') (audioBufferRef s) \<and> pending_rel i s s')"



definition not_WsClose :: "action \<Rightarrow> bool" where
  "not_WsClose a = (\<not> is_WsClose a)"

subsection \<open>Concrete inputs\<close>

text \<open>
  An \<open>atob\<close> that knows one payload: \<open>AEA=\<close>, the base64 of the bytes \<open>00 40\<close>, one
  sample of value 16384.
\<close>

definition atob_sample :: "string \<Rightarrow> uint8 list option" where
  "atob_sample base64 = (if base64 = ''AEA='' then Some [0x00, 0x40] else None)"

definition media_message :: message where
  "media_message = \<lparr>event = ''media'', payload = Some ''AEA='', sample_rate = None\<rparr>"


definition barge_message :: message where
  "barge_message = \<lparr>event = ''barge'', payload = None, sample_rate = None\<rparr>"


text \<open>The hook mounted on a URL without a visualizer, and the same after a connection is up.\<close>

definition mounted :: state where
  "mounted = init ''wss://host/voice'' []"

definition connected_state :: state where
  "connected_state =
     fst (run atob_sample mounted
            [Connect, WsOpen 0, GumResolved 0, ModuleResolved (FromOpen 0)])"


section \<open>Properties of the numbers\<close>

text \<open>
  The exponent found by \<open>grid_exponent\<close> is the one of the binade of its argument:
  it is not below the starting exponent, the argument lies below \<open>2 ^ (e + p)\<close> unless
  the search ran out of binades, and at or above \<open>2 ^ (e + p - 1)\<close> unless the search
  stopped at once.
\<close>

lemma grid_exponent_lower: "e \<le> grid_exponent p n e a"
proof (induction n arbitrary: e)
  case 0
  then show ?case by simp
next
  case (Suc n)
  show ?case using Suc [of "e + 1"] by auto
qed

lemma grid_exponent_upper: "grid_exponent p n e a \<le> e + int n"
proof (induction n arbitrary: e)
  case 0
  then show ?case by simp
next
  case (Suc n)
  show ?case using Suc [of "e + 1"] by auto
qed

lemma grid_exponent_less:
  "a < 2 powi (e + int n + int p) \<Longrightarrow> a < 2 powi (grid_exponent p n e a + int p)"
proof (induction n arbitrary: e)
  case 0
  then show ?case by simp
next
  case (Suc n)
  show ?case
  proof (cases "2 powi (e + int p) \<le> a")
    case True
    have "a < 2 powi (e + 1 + int n + int p)"
      using Suc.prems by (simp add: add.commute add.left_commute)
    then show ?thesis using Suc.IH [of "e + 1"] True by simp
  next
    case False
    then show ?thesis by simp
  qed
qed

lemma grid_exponent_ge:
  "e < grid_exponent p n e a \<Longrightarrow> 2 powi (grid_exponent p n e a + int p - 1) \<le> a"
proof (induction n arbitrary: e)
  case 0
  then show ?case by simp
next
  case (Suc n)
  show ?case
  proof (cases "2 powi (e + int p) \<le> a")
    case True
    show ?thesis
    proof (cases "e + 1 < grid_exponent p n (e + 1) a")
      case True
      then show ?thesis using Suc.IH [of "e + 1"] \<open>2 powi (e + int p) \<le> a\<close> by simp
    next
      case False
      then have "grid_exponent p n (e + 1) a = e + 1"
        using grid_exponent_lower [of "e + 1" p n a] by simp
      then show ?thesis using True by simp
    qed
  next
    case False
    then show ?thesis using Suc.prems by simp
  qed
qed

lemma grid_exponent_gt:
  "0 < n \<Longrightarrow> 2 powi (e + int p) \<le> a \<Longrightarrow> e < grid_exponent p n e a"
  using grid_exponent_lower [of "e + 1" p "n - 1" a] by (cases n) auto

lemma grid_exponent_eq:
  assumes "e0 \<le> e" and "e \<le> e0 + int n" and "e0 < e \<Longrightarrow> 2 powi (e + int p - 1) \<le> a"
    and "a < 2 powi (e + int p)"
  shows "grid_exponent p n e0 a = e"
  using assms
proof (induction n arbitrary: e0)
  case 0
  then show ?case by simp
next
  case (Suc n)
  show ?case
  proof (cases "2 powi (e0 + int p) \<le> a")
    case True
    have "e0 < e"
    proof (rule ccontr)
      assume "\<not> e0 < e"
      then have "e = e0" using Suc.prems(1) by simp
      then show False using True Suc.prems(4) by simp
    qed
    then have "grid_exponent p n (e0 + 1) a = e"
      using Suc.prems by (intro Suc.IH) auto
    then show ?thesis using True by simp
  next
    case False
    have "e = e0"
    proof (rule ccontr)
      assume "e \<noteq> e0"
      then have lt: "e0 < e" using Suc.prems(1) by simp
      then have "2 powi (e + int p - 1) \<le> a" by (rule Suc.prems(3))
      moreover have "(2::real) powi (e0 + int p) \<le> 2 powi (e + int p - 1)"
        using lt by (intro power_int_increasing) auto
      ultimately show False using False by simp
    qed
    then show ?thesis using False by simp
  qed
qed

text \<open>Rounding to an integer: an integer stays, the error is at most one half.\<close>

lemma roundTiesToEven_of_int [simp]: "roundTiesToEven (of_int k) = k"
  by (simp add: roundTiesToEven_def)

lemma roundTiesToEven_eq:
  assumes "of_int n - 1 / 2 < r" and "r < of_int n + 1 / 2"
  shows "roundTiesToEven r = n"
proof (cases "of_int n \<le> r")
  case True
  then have "\<lfloor>r\<rfloor> = n" using assms by (intro floor_unique) auto
  then show ?thesis using assms by (simp add: roundTiesToEven_def)
next
  case False
  then have "\<lfloor>r\<rfloor> = n - 1" using assms by (intro floor_unique) auto
  then show ?thesis using assms False by (simp add: roundTiesToEven_def)
qed

lemma roundTiesToEven_error: "\<bar>of_int (roundTiesToEven r) - r\<bar> \<le> 1 / 2"
proof -
  have "of_int \<lfloor>r\<rfloor> \<le> r" "r < of_int \<lfloor>r\<rfloor> + 1" by linarith+
  then show ?thesis by (auto simp add: roundTiesToEven_def Let_def)
qed

lemma roundTiesToEven_ge_floor: "\<lfloor>r\<rfloor> \<le> roundTiesToEven r"
  by (simp add: roundTiesToEven_def Let_def)

lemma roundTiesToEven_up: "1 / 2 < r - of_int \<lfloor>r\<rfloor> \<Longrightarrow> roundTiesToEven r = \<lfloor>r\<rfloor> + 1"
  by (simp add: roundTiesToEven_def Let_def)

text \<open>
  Rounding to a format: a value with a significand of at most \<open>p\<close> bits stays as it
  is, a value is evaluated from the exponent of its binade and the integer nearest to
  its quotient, and the error is at most half a unit of the binade.
\<close>

lemma round_to_format_zero [simp]: "round_to_format p emin binades 0 = 0"
  by (simp add: round_to_format_def roundTiesToEven_def)

lemma round_to_format_representable:
  assumes "\<bar>m\<bar> < 2 ^ p" and "emin \<le> t"
  shows "round_to_format p emin binades (of_int m * 2 powi t) = of_int m * 2 powi t"
proof -
  define v :: real where "v = of_int m * 2 powi t"
  define e where "e = grid_exponent p binades emin \<bar>v\<bar>"
  have "e \<le> t"
  proof (rule ccontr)
    assume "\<not> e \<le> t"
    then have lt: "t < e" by simp
    then have "emin < e" using assms(2) by simp
    then have "2 powi (e + int p - 1) \<le> \<bar>v\<bar>"
      unfolding e_def by (rule grid_exponent_ge)
    moreover have "\<bar>v\<bar> = real_of_int \<bar>m\<bar> * 2 powi t"
      by (simp add: v_def abs_mult)
    moreover have "real_of_int \<bar>m\<bar> \<le> 2 ^ p - 1"
    proof -
      have "\<bar>m\<bar> \<le> 2 ^ p - 1" using assms(1) by simp
      then have "real_of_int \<bar>m\<bar> \<le> real_of_int (2 ^ p - 1)" by (rule of_int_le_iff [THEN iffD2])
      then show ?thesis by simp
    qed
    moreover have "(2::real) powi (t + int p) \<le> 2 powi (e + int p - 1)"
      using lt by (intro power_int_increasing) auto
    moreover have "(2::real) powi (t + int p) = 2 ^ p * 2 powi t"
      by (simp add: power_int_add)
    moreover have "(2 ^ p - 1) * 2 powi t < (2::real) ^ p * 2 powi t"
      by (simp add: algebra_simps)
    moreover have "real_of_int \<bar>m\<bar> * 2 powi t \<le> (2 ^ p - 1) * 2 powi t"
      using calculation(3) by (intro mult_right_mono) auto
    ultimately show False by linarith
  qed
  then have "(2::real) powi (t - e) = 2 ^ nat (t - e)"
    by (simp add: power_int_def)
  moreover have "(2::real) powi t = 2 powi (t - e) * 2 powi e"
    by (simp flip: power_int_add)
  ultimately have "v / 2 powi e = of_int (m * 2 ^ nat (t - e))"
    by (simp add: v_def)
  then have "roundTiesToEven (v / 2 powi e) = m * 2 ^ nat (t - e)"
    by (simp only: roundTiesToEven_of_int)
  moreover have "real_of_int (m * 2 ^ nat (t - e)) * 2 powi e = v"
    using \<open>v / 2 powi e = of_int (m * 2 ^ nat (t - e))\<close> by (simp add: field_simps)
  ultimately show ?thesis
    by (simp add: round_to_format_def Let_def flip: v_def e_def)
qed

lemma round_to_format_eval:
  assumes "emin \<le> e" and "e \<le> emin + int binades"
    and "emin < e \<Longrightarrow> 2 powi (e + int p - 1) \<le> \<bar>v\<bar>" and "\<bar>v\<bar> < 2 powi (e + int p)"
    and "of_int n - 1 / 2 < v / 2 powi e" and "v / 2 powi e < of_int n + 1 / 2"
  shows "round_to_format p emin binades v = of_int n * 2 powi e"
proof -
  have "grid_exponent p binades emin \<bar>v\<bar> = e"
    using assms(1-4) by (intro grid_exponent_eq) auto
  then show ?thesis
    using roundTiesToEven_eq [OF assms(5,6)] by (simp add: round_to_format_def)
qed

lemma round_to_format_error:
  "\<bar>round_to_format p emin binades v - v\<bar> \<le> 2 powi (grid_exponent p binades emin \<bar>v\<bar>) / 2"
proof -
  define e where "e = grid_exponent p binades emin \<bar>v\<bar>"
  have u: "0 < (2::real) powi e" by simp
  have "\<bar>of_int (roundTiesToEven (v / 2 powi e)) - v / 2 powi e\<bar> \<le> 1 / 2"
    by (rule roundTiesToEven_error)
  then have "\<bar>of_int (roundTiesToEven (v / 2 powi e)) - v / 2 powi e\<bar> * 2 powi e \<le> 1 / 2 * 2 powi e"
    by (intro mult_right_mono) auto
  moreover have "\<bar>of_int (roundTiesToEven (v / 2 powi e)) - v / 2 powi e\<bar> * 2 powi e =
      \<bar>of_int (roundTiesToEven (v / 2 powi e)) * 2 powi e - v\<bar>"
  proof -
    have "\<bar>of_int (roundTiesToEven (v / 2 powi e)) - v / 2 powi e\<bar> * 2 powi e =
      \<bar>(of_int (roundTiesToEven (v / 2 powi e)) - v / 2 powi e) * 2 powi e\<bar>"
      by (simp add: abs_mult)
    also have "(of_int (roundTiesToEven (v / 2 powi e)) - v / 2 powi e) * 2 powi e =
      of_int (roundTiesToEven (v / 2 powi e)) * 2 powi e - v"
      by (simp add: left_diff_distrib)
    finally show ?thesis .
  qed
  ultimately show ?thesis
    by (simp add: round_to_format_def Let_def flip: e_def)
qed

lemma toFloat32_sample: "toFloat32 (toFloat64 (16384 / 32767)) = 32769 / 65536"
proof -
  have a: "toFloat64 (16384 / 32767) = 4503737070518400 / 2 ^ 53"
    unfolding toFloat64_def
    using round_to_format_eval [of "- 1074" "- 53" 2045 53 "16384 / 32767" 4503737070518400]
    by simp
  have b: "toFloat32 (4503737070518400 / 2 ^ 53) = 8388864 / 2 ^ 24"
    unfolding toFloat32_def
    using round_to_format_eval [of "- 149" "- 24" 253 24 "4503737070518400 / 2 ^ 53" 8388864]
    by simp
  show ?thesis unfolding a b by simp
qed


lemma toFloat64_rate: "toFloat64 44100 = 44100" "toFloat64 88200 = 88200"
  using round_to_format_representable [of 44100 53 "- 1074" 0 2045]
    round_to_format_representable [of 88200 53 "- 1074" 0 2045]
  by (simp_all add: toFloat64_def)

text \<open>
  A single-precision value of magnitude at most 1 times \<open>0x8000\<close> or \<open>0x7fff\<close> has a
  significand of at most 39 bits: the product is a double as it stands.
\<close>

lemma float32_scaled:
  assumes "toFloat32 x = x" and "\<bar>x\<bar> \<le> 1" and "\<bar>c\<bar> \<le> 32768"
  shows "toFloat64 (x * real_of_int c) = x * real_of_int c"
proof -
  define e where "e = grid_exponent 24 253 (- 149) \<bar>x\<bar>"
  define M where "M = roundTiesToEven (x / 2 powi e)"
  have x_eq: "x = of_int M * 2 powi e"
    using assms(1) [unfolded toFloat32_def round_to_format_def Let_def, folded e_def, folded M_def]
    by simp
  have e_lo: "- 149 \<le> e"
    unfolding e_def by (rule grid_exponent_lower)
  have "\<bar>x\<bar> < 2 powi (- 149 + int 253 + int 24)"
    using assms(2) by simp
  then have "\<bar>x\<bar> < 2 powi (e + int 24)"
    unfolding e_def by (rule grid_exponent_less)
  moreover have "(2::real) powi (e + int 24) = 2 powi e * 2 ^ 24"
    by (simp add: power_int_add)
  ultimately have "\<bar>x\<bar> < 2 powi e * 2 ^ 24"
    by (simp only:)
  then have "\<bar>x\<bar> / 2 powi e < 2 ^ 24"
    by (simp add: field_simps)
  then have "\<bar>x / 2 powi e\<bar> < 16777216"
    by simp
  moreover have "\<bar>real_of_int M - x / 2 powi e\<bar> \<le> 1 / 2"
    unfolding M_def by (rule roundTiesToEven_error)
  ultimately have "\<bar>real_of_int M\<bar> < 16777217"
    by linarith
  then have "\<bar>real_of_int M\<bar> < real_of_int (2 ^ 24 + 1)"
    by simp
  then have "\<bar>M\<bar> < 2 ^ 24 + 1"
    by (simp only: of_int_abs [symmetric] of_int_less_iff)
  then have "\<bar>M\<bar> \<le> 2 ^ 24"
    by simp
  then have "\<bar>M\<bar> * \<bar>c\<bar> \<le> 2 ^ 24 * 32768"
    using assms(3) by (intro mult_mono) auto
  then have "\<bar>M * c\<bar> < 2 ^ 53"
    by (simp add: abs_mult)
  moreover have "- 1074 \<le> e"
    using e_lo by simp
  ultimately have "round_to_format 53 (- 1074) 2045 (of_int (M * c) * 2 powi e) =
                     of_int (M * c) * 2 powi e"
    by (rule round_to_format_representable)
  moreover have "real_of_int (M * c) * 2 powi e = x * real_of_int c"
    unfolding x_eq by simp
  ultimately show ?thesis
    by (simp only: toFloat64_def)
qed

text \<open>
  A quotient \<open>k / 32767\<close> rounded to a double and then to single precision, seen from
  a single-precision \<open>x\<close> with \<open>k \<le> 32767 x < k + 1\<close>.  Rounding down could miss
  \<open>x\<close> by \<open>1 / 32767\<close> or more only across a whole step of the single-precision grid
  around the quotient; since \<open>2 ^ j mod 32767\<close> is a power of two below \<open>2 ^ 15\<close>, the
  quotient then lies above the middle of that step, and rounding goes up.
\<close>

lemma pow2_mod_32767: "\<exists>i<15. (2::int) ^ j mod 32767 = 2 ^ i"
proof (induction j)
  case 0
  show ?case by (rule exI [of _ 0]) simp
next
  case (Suc j)
  then obtain i where i: "i < 15" "(2::int) ^ j mod 32767 = 2 ^ i" by auto
  have "(2::int) ^ Suc j mod 32767 = (2 * (2 ^ j mod 32767)) mod 32767"
    by (simp add: mod_mult_right_eq)
  then have e: "(2::int) ^ Suc j mod 32767 = 2 ^ Suc i mod 32767"
    using i by simp
  show ?case
  proof (cases "i = 14")
    case True
    then have "(2::int) ^ Suc j mod 32767 = 2 ^ 0" using e by simp
    then show ?thesis by (intro exI [of _ 0]) simp
  next
    case False
    then have "Suc i \<le> 14" using i by simp
    then have "(2::int) ^ Suc i \<le> 2 ^ 14" by (intro power_increasing) auto
    then have "(2::int) ^ Suc i mod 32767 = 2 ^ Suc i" by (intro mod_pos_pos_trivial) auto
    then show ?thesis using e \<open>Suc i \<le> 14\<close> by (intro exI [of _ "Suc i"]) simp
  qed
qed

lemma pow2_mod_32767_bounds: "1 \<le> (2::int) ^ j mod 32767 \<and> (2::int) ^ j mod 32767 \<le> 16384"
proof -
  obtain i where i: "i < 15" "(2::int) ^ j mod 32767 = 2 ^ i"
    using pow2_mod_32767 by blast
  have "i \<le> 14" using i by simp
  then have "(2::int) ^ i \<le> 2 ^ 14" by (intro power_increasing) auto
  moreover have "1 \<le> (2::int) ^ i" by simp
  ultimately show ?thesis using i by simp
qed

lemma nearest_above_midpoint:
  fixes X Z k J :: int and y :: real
  assumes k1: "1 \<le> k" and J0: "0 < J"
    and Jb: "1 \<le> J mod 32767" "J mod 32767 \<le> 16384"
    and kx1: "k * J \<le> 32767 * X" and kx2: "32767 * X < (k + 1) * J"
    and yq: "\<bar>y - real_of_int k / 32767\<bar> \<le> real_of_int k / 32767 / 2 ^ 53"
    and Z: "Z = \<lfloor>y * real_of_int J\<rfloor>"
    and ybin: "y * real_of_int J < 2 ^ 24"
    and B: "J \<le> 32767 * (X - Z)"
  shows "1 / 2 < y * real_of_int J - real_of_int Z" and "32767 * (X - Z - 1) < J"
proof -
  define A :: real where "A = real_of_int k * real_of_int J / 32767"
  have Apos: "0 < A" using k1 J0 by (simp add: A_def)
  have p: "0 < real_of_int J" using J0 by simp
  have "real_of_int k / 32767 - real_of_int k / 32767 / 2 ^ 53 \<le> y"
    using yq by linarith
  then have "(real_of_int k / 32767 - real_of_int k / 32767 / 2 ^ 53) * real_of_int J \<le> y * real_of_int J"
    using p by (intro mult_right_mono) auto
  moreover have "(real_of_int k / 32767 - real_of_int k / 32767 / 2 ^ 53) * real_of_int J = A - A / 2 ^ 53"
    by (simp add: A_def left_diff_distrib)
  ultimately have ylo: "A - A / 2 ^ 53 \<le> y * real_of_int J"
    by (simp only:)
  then have "A - A / 2 ^ 53 < 2 ^ 24" using ybin by linarith
  then have A25: "A < 2 ^ 25" using Apos by simp
  then have Aerr: "A / 2 ^ 53 < 1 / 2 ^ 28" by simp
  have Zlo: "real_of_int Z \<le> y * real_of_int J" and Zhi: "y * real_of_int J < real_of_int Z + 1"
    unfolding Z by linarith+
  have "A < real_of_int Z + 1 + 1 / 2 ^ 28"
    using ylo Zhi Aerr by linarith
  then have "A * 32767 < (real_of_int Z + 1 + 1 / 2 ^ 28) * 32767"
    by (intro mult_strict_right_mono) auto
  moreover have "A * 32767 = real_of_int (k * J)"
    by (simp add: A_def)
  moreover have "(real_of_int Z + 1 + 1 / 2 ^ 28) * 32767 < real_of_int (32767 * (Z + 1) + 1)"
    by simp
  ultimately have "real_of_int (k * J) < real_of_int (32767 * (Z + 1) + 1)"
    by linarith
  then have "k * J < 32767 * (Z + 1) + 1"
    by (simp only: of_int_less_iff)
  then have kZ: "k * J \<le> 32767 * (Z + 1)"
    by linarith
  define P where "P = k * J"
  have kJ: "(k + 1) * J = P + J"
    by (simp add: algebra_simps P_def)
  have kZ': "P \<le> 32767 * Z + 32767"
    using kZ by (simp add: P_def algebra_simps)
  have kx2': "32767 * X < P + J"
    using kx2 by (simp only: kJ)
  define m where "m = X - Z"
  have Xm: "32767 * X = 32767 * m + 32767 * Z"
    by (simp add: m_def algebra_simps)
  have c2m: "32767 * m - 32767 < J"
    using kx2' kZ' Xm by linarith
  show c2: "32767 * (X - Z - 1) < J"
    using c2m by (simp add: m_def algebra_simps)
  define b where "b = J mod 32767"
  define a where "a = J div 32767"
  have J: "J = 32767 * a + b"
    by (simp add: a_def b_def)
  have b: "1 \<le> b" "b \<le> 16384"
    using Jb by (simp_all add: b_def)
  have B': "32767 * a + b \<le> 32767 * m"
    using B unfolding J m_def .
  have "32767 * a < 32767 * m" using B' b by linarith
  then have "a < m" by simp
  have "32767 * m < 32767 * a + 65534" using c2m b unfolding J by linarith
  also have "32767 * a + 65534 = 32767 * (a + 2)" by simp
  finally have "m < a + 2" by simp
  then have "m = a + 1" using \<open>a < m\<close> by linarith
  then have "32767 * m = 32767 * a + 32767" by simp
  then have "16383 \<le> 32767 * m - J"
    using b unfolding J by linarith
  moreover have "32767 * m + 32767 * Z - J + 1 \<le> P"
    using kx2' Xm by linarith
  ultimately have "16384 \<le> P - 32767 * Z"
    by linarith
  then have "16384 \<le> k * J - 32767 * Z"
    by (simp only: P_def)
  then have "real_of_int 16384 \<le> real_of_int (k * J - 32767 * Z)"
    by (simp only: of_int_le_iff)
  moreover have "real_of_int (k * J - 32767 * Z) = (A - real_of_int Z) * 32767"
    by (simp add: A_def algebra_simps)
  ultimately have "16384 \<le> (A - real_of_int Z) * 32767"
    by simp
  then have "16384 / 32767 \<le> A - real_of_int Z"
    by simp
  moreover have "(1::real) / 2 + 1 / 2 ^ 28 < 16384 / 32767"
    by simp
  ultimately show "1 / 2 < y * real_of_int J - real_of_int Z"
    using ylo Aerr by linarith
qed

lemma decode_near:
  fixes x :: real and k :: int
  assumes fx: "toFloat32 x = x" and x1: "x \<le> 1" and k1: "1 \<le> k"
    and klo: "real_of_int k \<le> x * 32767" and khi: "x * 32767 < real_of_int k + 1"
  shows "\<bar>toFloat32 (toFloat64 (real_of_int k / 32767)) - x\<bar> < 1 / 32767"
proof -
  define q :: real where "q = real_of_int k / 32767"
  have "1 \<le> real_of_int k" using k1 by simp
  then have q_lo: "1 / 32767 \<le> q" by (simp add: q_def)
  have q_le_x: "q \<le> x" using klo by (simp add: q_def)
  have x_lt: "x < q + 1 / 32767" using khi by (simp add: q_def field_simps)
  have q1: "q \<le> 1" using q_le_x x1 by simp
  have q0: "0 < q" using q_lo by simp
  have x0: "0 < x" using q0 q_le_x by simp

  define e64 where "e64 = grid_exponent 53 2045 (- 1074) \<bar>q\<bar>"
  define y where "y = toFloat64 q"
  have "(2::real) powi (- 1074 + int 53) \<le> 1 / 32767" by simp
  then have "(2::real) powi (- 1074 + int 53) \<le> \<bar>q\<bar>" using q_lo by linarith
  then have "- 1074 < e64" unfolding e64_def by (intro grid_exponent_gt) simp
  then have "2 powi (e64 + int 53 - 1) \<le> \<bar>q\<bar>" unfolding e64_def by (rule grid_exponent_ge)
  moreover have "e64 + int 53 - 1 = e64 + 52" by simp
  ultimately have "2 powi (e64 + 52) \<le> \<bar>q\<bar>" by (simp only:)
  then have lo64: "2 powi (e64 + 52) \<le> q" using q0 by (simp only: abs_of_pos)
  have p64: "(2::real) powi (e64 + 52) = 2 powi e64 * 2 ^ 52" by (simp add: power_int_add)
  have "\<bar>y - q\<bar> \<le> 2 powi e64 / 2"
    unfolding y_def toFloat64_def e64_def by (rule round_to_format_error)
  moreover have "2 powi e64 / 2 \<le> q / 2 ^ 53"
    using lo64 unfolding p64 by simp
  ultimately have yq: "\<bar>y - q\<bar> \<le> q / 2 ^ 53" by linarith
  have y_lo: "q - q / 2 ^ 53 \<le> y" and y_hi: "y \<le> q + q / 2 ^ 53" using yq by linarith+
  have qs: "q / 2 ^ 53 \<le> q / 2" "q / 2 ^ 53 \<le> 1 / 2 ^ 53" using q0 q1 by simp_all
  have y_half: "q / 2 \<le> y" using y_lo qs by linarith
  have y_pos: "0 < y" using y_half q0 by linarith
  have "(1::real) + 1 / 2 ^ 53 < 2" by simp
  then have y_lt2: "y < 2" using y_hi q1 qs by linarith

  define e where "e = grid_exponent 24 253 (- 149) \<bar>y\<bar>"
  define u :: real where "u = 2 powi e"
  define d where "d = toFloat32 y"
  have u_pos: "0 < u" by (simp add: u_def)
  have d_eq: "d = of_int (roundTiesToEven (y / u)) * u"
    by (simp add: d_def toFloat32_def round_to_format_def e_def u_def Let_def)
  have "(2::real) powi (- 149 + int 24) \<le> 1 / 32767 / 2" by simp
  then have "(2::real) powi (- 149 + int 24) \<le> \<bar>y\<bar>" using y_half q_lo by linarith
  then have e_gt: "- 149 < e" unfolding e_def by (intro grid_exponent_gt) simp
  then have "2 powi (e + int 24 - 1) \<le> \<bar>y\<bar>" unfolding e_def by (rule grid_exponent_ge)
  moreover have "e + int 24 - 1 = e + 23" by simp
  ultimately have "2 powi (e + 23) \<le> \<bar>y\<bar>" by (simp only:)
  then have lo32: "2 powi (e + 23) \<le> y" using y_pos by (simp only: abs_of_pos)
  have "\<bar>y\<bar> < 2 powi (- 149 + int 253 + int 24)" using y_lt2 y_pos by simp
  then have "\<bar>y\<bar> < 2 powi (e + int 24)" unfolding e_def by (rule grid_exponent_less)
  moreover have "e + int 24 = e + 24" by simp
  ultimately have "\<bar>y\<bar> < 2 powi (e + 24)" by (simp only:)
  then have hi32: "y < 2 powi (e + 24)" using y_pos by (simp only: abs_of_pos)
  have e23: "(2::real) powi (e + 23) = u * 2 ^ 23" and e24: "(2::real) powi (e + 24) = u * 2 ^ 24"
    by (simp_all add: u_def power_int_add)
  have e_le: "e \<le> - 23"
  proof (rule ccontr)
    assume "\<not> e \<le> - 23"
    then have "1 \<le> e + 23" by simp
    then have "(2::real) powi 1 \<le> 2 powi (e + 23)" by (intro power_int_increasing) auto
    then show False using lo32 y_lt2 by simp
  qed
  define j where "j = nat (- e)"
  have j23: "23 \<le> j" using e_le by (simp add: j_def)
  have "u = (1 / 2) ^ j"
    using e_le by (simp add: u_def j_def power_int_def)
  then have uj: "u = 1 / 2 ^ j"
    by (simp only: power_one_over)
  define J :: int where "J = 2 ^ j"
  have Jr: "real_of_int J = 2 ^ j" by (simp add: J_def)
  have J0: "0 < J" by (simp add: J_def)
  have uJ: "u = 1 / real_of_int J" by (simp add: uj Jr)
  have Jb: "1 \<le> J mod 32767" "J mod 32767 \<le> 16384"
    using pow2_mod_32767_bounds [of j] by (simp_all add: J_def)
  have "(2::real) ^ 23 \<le> 2 ^ j" using j23 by (intro power_increasing) auto
  then have u_le: "u \<le> 1 / 2 ^ 23" unfolding uj by (intro divide_left_mono) auto

  have dy: "\<bar>d - y\<bar> \<le> u / 2"
    unfolding d_def toFloat32_def u_def e_def by (rule round_to_format_error)
  have low: "d - x < 1 / 32767"
  proof -
    define r where "r = q / 2 ^ 53"
    have "r \<le> 1 / 9007199254740992" using qs(2) by (simp add: r_def)
    moreover have "u \<le> 1 / 8388608" using u_le by simp
    moreover have "y \<le> q + r" using y_hi by (simp add: r_def)
    ultimately show ?thesis using dy q_le_x by linarith
  qed

  define ex where "ex = grid_exponent 24 253 (- 149) \<bar>x\<bar>"
  have x_eq: "x = of_int (roundTiesToEven (x / 2 powi ex)) * 2 powi ex"
    using fx [unfolded toFloat32_def round_to_format_def Let_def, folded ex_def] by simp
  have e_le_ex: "e \<le> ex"
  proof (rule ccontr)
    assume "\<not> e \<le> ex"
    then have "ex + 24 \<le> e + 23" by simp
    then have "(2::real) powi (ex + 24) \<le> 2 powi (e + 23)" by (intro power_int_increasing) auto
    moreover have "x < 2 powi (ex + 24)"
    proof -
      have "\<bar>x\<bar> < 2 powi (- 149 + int 253 + int 24)" using x1 x0 by simp
      then have "\<bar>x\<bar> < 2 powi (ex + int 24)" unfolding ex_def by (rule grid_exponent_less)
      moreover have "ex + int 24 = ex + 24" by simp
      ultimately have "\<bar>x\<bar> < 2 powi (ex + 24)" by (simp only:)
      then show ?thesis using x0 by (simp only: abs_of_pos)
    qed
    ultimately have xT: "x < 2 powi (e + 23)" by linarith
    define s where "s = nat (- (e + 23))"
    define T :: real where "T = 2 powi (e + 23)"
    have "T = (1 / 2) ^ s"
      using e_le by (cases "e = - 23") (simp_all add: T_def s_def power_int_def)
    then have T: "T = 1 / 2 ^ s"
      by (simp only: power_one_over)
    have T0: "0 < T" by (simp add: T_def)
    have "q < 1 / 2 ^ s" using q_le_x xT unfolding T_def [symmetric] T by linarith
    then have "real_of_int k * 2 ^ s < 32767" by (simp add: q_def field_simps)
    then have "real_of_int (k * 2 ^ s) < real_of_int 32767" by simp
    then have "k * 2 ^ s < 32767" by (simp only: of_int_less_iff)
    then have "k * 2 ^ s \<le> 32766" by simp
    then have "real_of_int (k * 2 ^ s) \<le> real_of_int 32766" by (simp only: of_int_le_iff)
    then have "real_of_int k * 2 ^ s \<le> 32766" by simp
    then have "q \<le> 32766 / 32767 * T" unfolding T by (simp add: q_def field_simps)
    moreover have "T \<le> q + q / 2 ^ 53" using lo32 y_hi unfolding T_def by linarith
    moreover have "q / 2 ^ 53 \<le> q / 32768" using q0 by simp
    ultimately show False using T0 by (simp add: field_simps)
  qed
  define X where "X = roundTiesToEven (x / 2 powi ex) * 2 ^ nat (ex - e)"
  have "(2::real) powi ex = 2 powi (ex - e) * 2 powi e" by (simp flip: power_int_add)
  moreover have "(2::real) powi (ex - e) = 2 ^ nat (ex - e)" using e_le_ex by (simp add: power_int_def)
  ultimately have "(2::real) powi ex = 2 ^ nat (ex - e) * u" by (simp add: u_def)
  then have xX: "x = of_int X * u" using x_eq by (simp add: X_def)

  define Z where "Z = \<lfloor>y / u\<rfloor>"
  have yu: "y / u = y * real_of_int J" by (simp add: uJ)
  have ZJ: "Z = \<lfloor>y * real_of_int J\<rfloor>" by (simp add: Z_def yu)
  have "Z \<le> roundTiesToEven (y / u)" unfolding Z_def by (rule roundTiesToEven_ge_floor)
  then have "real_of_int Z \<le> real_of_int (roundTiesToEven (y / u))" by (simp only: of_int_le_iff)
  then have d_ge: "of_int Z * u \<le> d" unfolding d_eq using u_pos by (intro mult_right_mono) auto
  have yq': "\<bar>y - real_of_int k / 32767\<bar> \<le> real_of_int k / 32767 / 2 ^ 53"
    using yq by (simp only: q_def)
  have res: "toFloat32 (toFloat64 (real_of_int k / 32767)) = d"
    by (simp add: d_def y_def q_def)
  show ?thesis
    unfolding res
  proof (cases "x - 1 / 32767 < of_int Z * u")
    case True
    then show "\<bar>d - x\<bar> < 1 / 32767" using d_ge low by linarith
  next
    case False
    then have "of_int Z * u \<le> of_int X * u - 1 / 32767" unfolding xX by simp
    then have "1 / 32767 \<le> real_of_int (X - Z) * u" by (simp add: left_diff_distrib)
    then have "1 / 32767 \<le> real_of_int (X - Z) / real_of_int J" by (simp add: uJ)
    then have "1 / 32767 * real_of_int J \<le> real_of_int (X - Z)"
      using J0 by (simp only: pos_le_divide_eq of_int_0_less_iff)
    then have "real_of_int J \<le> real_of_int (32767 * (X - Z))" by simp
    then have B: "J \<le> 32767 * (X - Z)" by (simp only: of_int_le_iff)
    have xJ: "x * real_of_int J = of_int X" using J0 by (simp add: xX uJ)
    have "real_of_int k * real_of_int J \<le> x * 32767 * real_of_int J"
      using klo J0 by (intro mult_right_mono) auto
    then have "real_of_int (k * J) \<le> real_of_int (32767 * X)"
      using xJ by (simp add: algebra_simps)
    then have kx1: "k * J \<le> 32767 * X" by (simp only: of_int_le_iff)
    have "x * 32767 * real_of_int J < (real_of_int k + 1) * real_of_int J"
      using khi J0 by (intro mult_strict_right_mono) auto
    then have "real_of_int (32767 * X) < real_of_int ((k + 1) * J)"
      using xJ by (simp add: algebra_simps)
    then have kx2: "32767 * X < (k + 1) * J" by (simp only: of_int_less_iff)
    have "y < u * 2 ^ 24" using hi32 e24 by simp
    then have ybin: "y * real_of_int J < 2 ^ 24" using J0 by (simp add: uJ field_simps)
    have frac: "1 / 2 < y * real_of_int J - real_of_int Z"
      and c2: "32767 * (X - Z - 1) < J"
      using nearest_above_midpoint [OF k1 J0 Jb kx1 kx2 yq' ZJ ybin B] by simp_all
    have "roundTiesToEven (y / u) = \<lfloor>y / u\<rfloor> + 1"
      using frac by (intro roundTiesToEven_up) (simp add: yu ZJ)
    then have dZ: "d = of_int (Z + 1) * u" by (simp add: d_eq Z_def)
    have "real_of_int (32767 * (X - Z - 1)) < real_of_int J" using c2 by (simp only: of_int_less_iff)
    then have "real_of_int (X - Z - 1) * 32767 < real_of_int J" by simp
    then have "real_of_int (X - Z - 1) / real_of_int J < 1 / 32767"
      using J0 by (simp add: field_simps)
    moreover have "x - d = real_of_int (X - Z - 1) * u"
      by (simp add: xX dZ algebra_simps)
    then have "x - d = real_of_int (X - Z - 1) / real_of_int J"
      by (simp only: uJ times_divide_eq_right mult_1_right)
    ultimately have "x - d < 1 / 32767" by (simp only:)
    then show "\<bar>d - x\<bar> < 1 / 32767" using low by linarith
  qed
qed

section \<open>Properties of the codec\<close>

lemma sint_word_of_int_int16:
  assumes "- 32768 \<le> k" and "k \<le> 32767"
  shows "sint (word_of_int k :: int16) = k"
  using assms by (simp add: sint_sbintrunc' signed_take_bit_int_eq_self)

lemma roundtrip_nonneg:
  assumes "0 \<le> x" and "x \<le> 1" and "toFloat32 x = x"
  shows "\<bar>convertPCMDataToFloat32_sample (floatTo16BitPCM_sample x) - x\<bar> < 1 / 32767"
proof -
  define k where "k = \<lfloor>x * 32767\<rfloor>"
  have k0: "0 \<le> k"
    using assms by (simp add: k_def)
  have "x * 32767 \<le> 32767"
    using assms by simp
  then have k1: "k \<le> 32767"
    unfolding k_def by (simp add: floor_le_iff)
  have "toFloat64 (x * real_of_int 32767) = x * real_of_int 32767"
    using assms by (intro float32_scaled) auto
  then have enc: "floatTo16BitPCM_sample x = word_of_int k"
    using assms by (simp add: floatTo16BitPCM_sample_def toInt16_def k_def)
  have s: "sint (word_of_int k :: int16) = k"
    using k0 k1 by (intro sint_word_of_int_int16) auto
  have dec: "convertPCMDataToFloat32_sample (floatTo16BitPCM_sample x) =
               toFloat32 (toFloat64 (real_of_int k / 32767))"
    using k0 by (simp add: enc convertPCMDataToFloat32_sample_def s)
  have lo: "real_of_int k \<le> x * 32767"
    unfolding k_def by simp
  have hi: "x * 32767 < real_of_int k + 1"
    unfolding k_def by linarith
  show ?thesis
  proof (cases "k = 0")
    case True
    then have "convertPCMDataToFloat32_sample (floatTo16BitPCM_sample x) = 0"
      by (simp add: dec toFloat32_def toFloat64_def)
    then show ?thesis
      using True hi assms(1) by simp
  next
    case False
    then have "1 \<le> k"
      using k0 by simp
    then show ?thesis
      unfolding dec using assms(3) assms(2) lo hi by (intro decode_near)
  qed
qed

lemma roundtrip_neg:
  assumes "- 1 \<le> x" and "x < 0" and "toFloat32 x = x"
  shows "\<bar>convertPCMDataToFloat32_sample (floatTo16BitPCM_sample x) - x\<bar> < 1 / 32768"
proof -
  define k where "k = - \<lfloor>- (x * 32768)\<rfloor>"
  have k0: "k \<le> 0"
    using assms by (simp add: k_def)
  have "- (x * 32768) \<le> 32768"
    using assms by simp
  then have k1: "- 32768 \<le> k"
    unfolding k_def by (simp add: floor_le_iff)
  have "toFloat64 (x * real_of_int 32768) = x * real_of_int 32768"
    using assms by (intro float32_scaled) auto
  then have enc: "floatTo16BitPCM_sample x = word_of_int k"
    using assms by (simp add: floatTo16BitPCM_sample_def toInt16_def k_def)
  have s: "sint (word_of_int k :: int16) = k"
    using k0 k1 by (intro sint_word_of_int_int16) auto
  have lo: "x * 32768 \<le> real_of_int k"
    unfolding k_def by linarith
  have hi: "real_of_int k < x * 32768 + 1"
    unfolding k_def by linarith
  show ?thesis
  proof (cases "k = 0")
    case True
    then have "convertPCMDataToFloat32_sample (floatTo16BitPCM_sample x) = 0"
      by (simp add: enc convertPCMDataToFloat32_sample_def toFloat32_def toFloat64_def)
    then show ?thesis
      using True hi assms by (simp add: field_simps abs_less_iff)
  next
    case False
    then have "k < 0"
      using k0 by simp
    have q: "real_of_int k / 32768 = real_of_int k * 2 powi (- 15)"
      by simp
    have "\<bar>k\<bar> < 2 ^ 53" "\<bar>k\<bar> < 2 ^ 24"
      using k0 k1 by simp_all
    then have "toFloat32 (toFloat64 (real_of_int k / 32768)) = real_of_int k / 32768"
      unfolding q toFloat32_def toFloat64_def
      by (simp only: round_to_format_representable [of k 53 "- 1074" "- 15" 2045]
            round_to_format_representable [of k 24 "- 149" "- 15" 253])
    then have "convertPCMDataToFloat32_sample (floatTo16BitPCM_sample x) = real_of_int k / 32768"
      using \<open>k < 0\<close> by (simp add: enc convertPCMDataToFloat32_sample_def s)
    then show ?thesis
      using lo hi by (simp add: field_simps abs_less_iff)
  qed
qed

lemma convertPCMDataToFloat32_sample_16384:
  "convertPCMDataToFloat32_sample 16384 = 32769 / 65536"
  by (simp add: convertPCMDataToFloat32_sample_def toFloat32_sample)

text \<open>
  C4.  \<open>linearToMuLaw\<close> is not the ITU-T mu-law encoder: on the all-zero input every
  byte it writes is \<open>0xFE\<close>, where the mu-law code of the sample 0 is \<open>0xFF\<close>.  The
  mantissa is read with \<open>sample >> 9\<close> from a sample whose leading bit the exponent
  loop has moved to bit 14, so the four bits below the leading bit are bits 10 to 13.
\<close>

theorem linearToMuLaw_zero_differs_from_itu:
  "linearToMuLaw [0, 0, 0] = [0xFE, 0xFE, 0xFE] \<and> itu_mulaw_reference 0 = 0xFF"
  by code_simp

text \<open>
  C5, as stated, fails: the single-precision sample \<open>(2^23 + 1) / 2^38\<close>, just above
  \<open>1 / 32768\<close>, is encoded as 0 and decoded as 0, an error above \<open>1 / 32768\<close>.
\<close>

theorem pcm_roundtrip_counterexample:
  "toFloat32 (8388609 / 274877906944) = 8388609 / 274877906944 \<and>
   - 1 \<le> (8388609 / 274877906944 :: real) \<and> (8388609 / 274877906944 :: real) \<le> 1 \<and>
   \<not> \<bar>convertPCMDataToFloat32_sample (floatTo16BitPCM_sample (8388609 / 274877906944))
        - 8388609 / 274877906944\<bar> \<le> 1 / 32768"
proof -
  have f: "toFloat32 (8388609 / 274877906944) = 8388609 / 274877906944"
    using round_to_format_representable [of 8388609 24 "- 149" "- 38" 253]
    by (simp add: toFloat32_def)
  have "toFloat64 (8388609 / 274877906944 * real_of_int 32767) =
          8388609 / 274877906944 * real_of_int 32767"
    using f by (intro float32_scaled) auto
  then have p: "toFloat64 (274869551103 / 274877906944) = 274869551103 / 274877906944"
    by simp
  have "floatTo16BitPCM_sample (8388609 / 274877906944) = 0"
    by (simp add: floatTo16BitPCM_sample_def toInt16_def p)
  then show ?thesis
    using f by (simp add: convertPCMDataToFloat32_sample_def toFloat32_def toFloat64_def)
qed

text \<open>
  C5, amended: for every single-precision sample \<open>x\<close> in \<open>[-1, 1]\<close> the value that
  \<open>convertPCMDataToFloat32\<close> stores for the encoded sample is within \<open>1 / 32767\<close> of
  \<open>x\<close> (strictly), and within \<open>1 / 32768\<close> when \<open>x\<close> is negative.
\<close>

theorem pcm_roundtrip_error:
  assumes "- 1 \<le> x" and "x \<le> 1" and "toFloat32 x = x"
  shows "\<bar>convertPCMDataToFloat32_sample (floatTo16BitPCM_sample x) - x\<bar> < 1 / 32767
       \<and> (x < 0 \<longrightarrow>
            \<bar>convertPCMDataToFloat32_sample (floatTo16BitPCM_sample x) - x\<bar> < 1 / 32768)"
proof (cases "x < 0")
  case True
  then have "\<bar>convertPCMDataToFloat32_sample (floatTo16BitPCM_sample x) - x\<bar> < 1 / 32768"
    using assms roundtrip_neg by simp
  then show ?thesis
    by simp
next
  case False
  then show ?thesis
    using assms roundtrip_nonneg by simp
qed

theorem pcm_roundtrip_error_witness:
  "- 1 \<le> (- 11184811 / 33554432 :: real) \<and> (- 11184811 / 33554432 :: real) \<le> 1 \<and>
   toFloat32 (- 11184811 / 33554432) = - 11184811 / 33554432 \<and>
   (- 11184811 / 33554432 :: real) < 0 \<and>
   \<bar>convertPCMDataToFloat32_sample (floatTo16BitPCM_sample (- 11184811 / 33554432))
      - (- 11184811 / 33554432)\<bar> < 1 / 32767 \<and>
   \<bar>convertPCMDataToFloat32_sample (floatTo16BitPCM_sample (- 11184811 / 33554432))
      - (- 11184811 / 33554432)\<bar> < 1 / 32768 \<and>
   - 1 \<le> (11184811 / 33554432 :: real) \<and> (11184811 / 33554432 :: real) \<le> 1 \<and>
   toFloat32 (11184811 / 33554432) = 11184811 / 33554432 \<and>
   \<bar>convertPCMDataToFloat32_sample (floatTo16BitPCM_sample (11184811 / 33554432))
      - 11184811 / 33554432\<bar> < 1 / 32767"
proof -
  have f: "toFloat32 (- 11184811 / 33554432) = - 11184811 / 33554432"
    using round_to_format_representable [of "- 11184811" 24 "- 149" "- 25" 253]
    by (simp add: toFloat32_def)
  have g: "toFloat32 (11184811 / 33554432) = 11184811 / 33554432"
    using round_to_format_representable [of 11184811 24 "- 149" "- 25" 253]
    by (simp add: toFloat32_def)
  show ?thesis
    using pcm_roundtrip_error [of "- 11184811 / 33554432"]
      pcm_roundtrip_error [of "11184811 / 33554432"] f g
    by simp
qed

section \<open>Sequencing and concrete runs\<close>

lemmas outcome_defs = ret_def emit_def emits_def throw_def seq_def catch_def

lemma seq_triple:
  "seq (s1, as, False) f = (case f s1 of (s2, bs, t) \<Rightarrow> (s2, as @ bs, t))"
  by (simp add: seq_def)

lemmas handler_defs =
  ws_close_def ws_send_def ref_send_def ref_close_def new_socket_def
  getOrCreateAudioContext_def initializeVisualizer_def stopProcessing_def after_start_def
  startProcessing_def addModule_resolved_def addModule_rejected_def setupAudioStream_def
  getUserMedia_resolved_def getUserMedia_rejected_def worklet_onmessage_def
  cleanup_audio_context_def cleanup_audio_source_def cleanup_media_stream_def
  cleanup_websocket_def cleanup_analyzer_def cleanup_def connect_def disconnect_def
  reconnect_websocket_def reconnect_analyzer_def reconnect_def
  ws_onopen_def ws_onmessage_def ws_onclose_def ws_onerror_def
  play_buffer_def playNextChunk_def source_onended_def

text \<open>
  The state \<open>connected_state\<close>, written out: a connection made by \<open>connect\<close>, its
  socket open, the microphone acquired and the capture worklet running.
\<close>

lemma connected_run:
  "run atob_sample mounted [Connect, WsOpen 0, GumResolved 0, ModuleResolved (FromOpen 0)] =
     (mounted\<lparr>socketCount := 1, readyState := (\<lambda>i. CLOSED)(0 := OPEN),
        createdBy := (\<lambda>i. ByConnect), websocketRef := Some 0, audioContextRef := True,
        streamRef := True, isAudioNodesConnected := True, isConnected := True,
        audioWorkletNode := True, sourceNode := True\<rparr>,
      [WsNew 0, GetUserMedia 0, ContextNew, AddModule (FromOpen 0), CaptureConnect,
       WsSend 0 Start])"
  by (simp add: mounted_def init_def handler_defs outcome_defs Let_def fun_eq_iff)

lemma connected_fields:
  "websocketRef connected_state = Some 0"
  "readyState connected_state 0 = OPEN"
  "\<not> isCleanedUp connected_state"
  "audioBufferRef connected_state = []"
  "\<not> isPlayingAudio connected_state"
  "\<not> isStopReceived connected_state"
  "backendSampleRate connected_state = 44100"
  "isConnected connected_state"
  "visualizerElementId connected_state = []"
  "audioContextRef connected_state"
  "\<not> analyzerRef connected_state"
  "\<not> lastSentTTSEvent connected_state"
  "\<not> sourceNodeRef connected_state"
  "streamRef connected_state"
  "audioWorkletNode connected_state"
  "sourceNode connected_state"
  unfolding connected_state_def connected_run
  by (simp_all add: mounted_def init_def SAMPLE_RATE_def)

text \<open>
  The payload \<open>AEA=\<close> at the playback rate is one sample, \<open>16384 / 32767\<close> rounded
  to single precision; declared at 1 Hz it is that sample 44100 times.
\<close>

lemma media_message_chunk:
  "decode_chunk atob_sample ''AEA='' 44100 = Some [32769 / 65536]"
  by (simp add: decode_chunk_def base64ToPCM16Data_def atob_sample_def SAMPLE_RATE_def
      convertPCMDataToFloat32_def convertPCMDataToFloat32_sample_16384)






section \<open>Teardown\<close>

text \<open>
  Every handler other than \<open>cleanup\<close>, \<open>reconnect\<close> and \<open>connect\<close> is quiet, piece by
  piece.
\<close>

lemma quiet_ret: "isCleanedUp s' = isCleanedUp s \<Longrightarrow> quiet s (ret s')"
  by (simp add: quiet_def ret_def)

lemma quiet_throw: "isCleanedUp s' = isCleanedUp s \<Longrightarrow> quiet s (throw s')"
  by (simp add: quiet_def throw_def)

lemma quiet_emit:
  "isCleanedUp s' = isCleanedUp s \<Longrightarrow> \<not> teardown_only a \<Longrightarrow> \<not> is_WsNew a \<Longrightarrow> quiet s (emit a s')"
  by (simp add: quiet_def emit_def)

lemma quiet_seq:
  assumes "quiet s r" and "\<And>s'. isCleanedUp s' = isCleanedUp s \<Longrightarrow> quiet s' (f s')"
  shows "quiet s (seq r f)"
proof -
  obtain s1 as t where r: "r = (s1, as, t)" by (cases r)
  have 1: "isCleanedUp s1 = isCleanedUp s" "filter teardown_only as = []" "filter is_WsNew as = []"
    using assms(1) by (simp_all add: quiet_def r)
  obtain s2 bs t2 where f: "f s1 = (s2, bs, t2)" by (cases "f s1")
  have "quiet s1 (f s1)" using assms(2) 1 by simp
  then have 2: "isCleanedUp s2 = isCleanedUp s1" "filter teardown_only bs = []" "filter is_WsNew bs = []"
    by (simp_all add: quiet_def f)
  show ?thesis using 1 2 by (simp add: quiet_def seq_def r f)
qed

lemma quiet_catch: "quiet s r \<Longrightarrow> quiet s (catch r)"
  by (cases r) (simp add: quiet_def catch_def)

lemma quiet_cong: "isCleanedUp s' = isCleanedUp s \<Longrightarrow> quiet s' r \<Longrightarrow> quiet s r"
  by (simp add: quiet_def)

lemma quiet_ws_close: "isCleanedUp s' = isCleanedUp s \<Longrightarrow> quiet s (ws_close i s')"
  by (simp add: ws_close_def quiet_emit)

lemma quiet_ws_send: "isCleanedUp s' = isCleanedUp s \<Longrightarrow> quiet s (ws_send i f s')"
  by (simp add: ws_send_def quiet_emit quiet_throw)

lemma quiet_ref_send: "isCleanedUp s' = isCleanedUp s \<Longrightarrow> quiet s (ref_send f s')"
  by (simp add: ref_send_def quiet_ws_send quiet_ret split: option.split)

lemma quiet_ref_close: "isCleanedUp s' = isCleanedUp s \<Longrightarrow> quiet s (ref_close s')"
  by (simp add: ref_close_def quiet_ws_close quiet_ret split: option.split)

lemma quiet_getOrCreateAudioContext:
  "isCleanedUp s' = isCleanedUp s \<Longrightarrow> quiet s (getOrCreateAudioContext s')"
  by (simp add: getOrCreateAudioContext_def quiet_emit quiet_ret)

lemma quiet_initializeVisualizer:
  "isCleanedUp s' = isCleanedUp s \<Longrightarrow> quiet s (initializeVisualizer s')"
  by (simp add: initializeVisualizer_def quiet_emit quiet_ret)

lemma quiet_stopProcessing: "isCleanedUp s' = isCleanedUp s \<Longrightarrow> quiet s (stopProcessing s')"
  unfolding stopProcessing_def
  by (intro quiet_seq) (simp_all add: quiet_emit quiet_ret)

lemma quiet_after_start: "isCleanedUp s' = isCleanedUp s \<Longrightarrow> quiet s (after_start k s')"
  unfolding after_start_def
  by (cases k) (auto intro!: quiet_seq quiet_ws_send quiet_ret quiet_emit)

lemma quiet_startProcessing: "isCleanedUp s' = isCleanedUp s \<Longrightarrow> quiet s (startProcessing k s')"
  unfolding startProcessing_def
  by (auto intro!: quiet_seq quiet_after_start quiet_getOrCreateAudioContext quiet_emit)

lemma quiet_play_buffer: "isCleanedUp s' = isCleanedUp s \<Longrightarrow> quiet s (play_buffer d s')"
  unfolding play_buffer_def
  by (auto intro!: quiet_seq quiet_initializeVisualizer quiet_emit quiet_throw)

lemma quiet_playNextChunk: "isCleanedUp s' = isCleanedUp s \<Longrightarrow> quiet s (playNextChunk s')"
  unfolding playNextChunk_def Let_def
  by (auto intro!: quiet_seq quiet_getOrCreateAudioContext quiet_ret quiet_throw
        quiet_ref_send quiet_play_buffer split: prod.split)

lemma quiet_source_onended: "isCleanedUp s' = isCleanedUp s \<Longrightarrow> quiet s (source_onended s')"
  unfolding source_onended_def Let_def
  by (auto intro!: quiet_seq quiet_playNextChunk quiet_ref_send quiet_ref_close quiet_ret)

lemma quiet_processAudioChunk:
  "isCleanedUp s' = isCleanedUp s \<Longrightarrow> quiet s (processAudioChunk atob p s')"
  unfolding processAudioChunk_def Let_def
  by (auto intro!: quiet_seq quiet_catch quiet_getOrCreateAudioContext quiet_playNextChunk
        quiet_ret quiet_throw split: option.split)

lemma quiet_processAudioMessage:
  "isCleanedUp s' = isCleanedUp s \<Longrightarrow> quiet s (processAudioMessage atob m s')"
  unfolding processAudioMessage_def
  by (auto intro!: quiet_catch quiet_processAudioChunk quiet_ret quiet_ref_send
        split: option.split)

lemma quiet_setupAudioStream:
  "isCleanedUp s' = isCleanedUp s \<Longrightarrow> quiet s (setupAudioStream i s')"
  unfolding setupAudioStream_def
  by (auto intro!: quiet_seq quiet_startProcessing quiet_emit quiet_ret)

lemma quiet_ws_onopen: "isCleanedUp s' = isCleanedUp s \<Longrightarrow> quiet s (ws_onopen i s')"
  unfolding ws_onopen_def
  by (auto intro!: quiet_ws_close quiet_setupAudioStream)

lemma quiet_ws_onmessage: "quiet s (ws_onmessage atob i d s)"
  unfolding ws_onmessage_def
  by (auto intro!: quiet_ret quiet_emit quiet_processAudioMessage split: raw.split)

lemma quiet_getUserMedia_resolved: "quiet s (getUserMedia_resolved i s)"
  unfolding getUserMedia_resolved_def
  by (auto intro!: quiet_seq quiet_getOrCreateAudioContext quiet_initializeVisualizer
        quiet_startProcessing)

lemma quiet_getUserMedia_rejected: "quiet s (getUserMedia_rejected i s)"
  unfolding getUserMedia_rejected_def
  by (auto intro!: quiet_seq quiet_emit quiet_throw)

lemma quiet_addModule_resolved: "quiet s (addModule_resolved k s)"
  unfolding addModule_resolved_def
  by (auto intro!: quiet_seq quiet_emit quiet_after_start)

lemma quiet_addModule_rejected: "quiet s (addModule_rejected k s)"
  unfolding addModule_rejected_def
  by (auto intro!: quiet_seq quiet_emit quiet_after_start)

lemma quiet_worklet_onmessage: "quiet s (worklet_onmessage d t s)"
  unfolding worklet_onmessage_def
  by (auto intro!: quiet_ret quiet_ws_send split: option.split)

text \<open>
  The blocks of \<open>cleanup\<close> as equations, and \<open>cleanup\<close> itself on a connection that is
  not torn down yet.
\<close>

lemma stopProcessing_eq:
  "stopProcessing s =
     (s\<lparr>audioWorkletNode := False, sourceNode := False\<rparr>,
      (if audioWorkletNode s then [WorkletNodeDisconnect] else []) @
      (if sourceNode s then [CaptureSourceDisconnect] else []), False)"
  by (simp add: stopProcessing_def outcome_defs)

lemma cleanup_websocket_eq:
  "cleanup_websocket s =
     (s\<lparr>readyState :=
          (case websocketRef s of None \<Rightarrow> readyState s
           | Some i \<Rightarrow> (readyState s)(i := (if readyState s i = OPEN \<or> readyState s i = CONNECTING
                   then CLOSING else readyState s i))),
        websocketRef := None\<rparr>,
      (case websocketRef s of None \<Rightarrow> []
       | Some i \<Rightarrow> if readyState s i = OPEN \<or> readyState s i = CONNECTING then [WsClose i] else []),
      False)"
  by (auto simp add: cleanup_websocket_def ws_close_def outcome_defs split: option.split)

lemma cleanup_analyzer_eq:
  "cleanup_analyzer s = (s, (if analyzerRef s then [AnalyzerStop, AnalyzerDestroy] else []), False)"
  by (simp add: cleanup_analyzer_def outcome_defs)

lemma cleanup_audio_context_eq:
  "cleanup_audio_context s =
     (s\<lparr>audioContextRef := False\<rparr>, (if audioContextRef s then [ContextClose] else []), False)"
  by (simp add: cleanup_audio_context_def outcome_defs)

lemma cleanup_audio_source_eq:
  "cleanup_audio_source s =
     (s\<lparr>sourceNodeRef := False\<rparr>, (if sourceNodeRef s then [SourceStop, SourceDisconnect] else []), False)"
  by (simp add: cleanup_audio_source_def outcome_defs)

lemma cleanup_media_stream_eq:
  "cleanup_media_stream s =
     (s\<lparr>streamRef := False\<rparr>, (if streamRef s then [StreamRelease] else []), False)"
  by (simp add: cleanup_media_stream_def outcome_defs)

lemmas cleanup_blocks =
  stopProcessing_eq cleanup_websocket_eq cleanup_analyzer_eq cleanup_audio_context_eq
  cleanup_audio_source_eq cleanup_media_stream_eq

lemma cleanup_live:
  assumes "\<not> isCleanedUp s"
  shows "fst (snd (cleanup source s)) = cleanup_actions source s"
    and "isCleanedUp (fst (cleanup source s))"
    and "\<not> snd (snd (cleanup source s))"
  using assms
  by (simp_all add: cleanup_def cleanup_blocks seq_triple emit_def cleanup_actions_def
        split: option.split split del: if_split)


lemma cleanup_done: "isCleanedUp s \<Longrightarrow> cleanup src s = ret s"
  by (simp add: cleanup_def)






lemma cleanup_marks: "isCleanedUp (fst (cleanup source s))"
  by (cases "isCleanedUp s") (simp_all add: cleanup_done ret_def cleanup_live)



lemma quiet_connect_cleaned: "isCleanedUp s \<Longrightarrow> quiet s (connect s)"
  by (simp add: connect_def quiet_ret)




lemma quiet_ws_onclose_cleaned: "isCleanedUp s \<Longrightarrow> quiet s (ws_onclose i r s)"
  unfolding ws_onclose_def
  by (auto intro!: quiet_seq quiet_emit quiet_ret quiet_stopProcessing)

lemma quiet_ws_onerror_cleaned: "isCleanedUp s \<Longrightarrow> quiet s (ws_onerror i s)"
  unfolding ws_onerror_def
  by (auto intro!: quiet_seq quiet_emit quiet_ret)

lemma fire_cleaned:
  assumes "isCleanedUp s" and "\<not> is_reconnect e"
  shows "quiet s (fire atob e s)"
  using assms
  by (cases e)
    (simp_all add: quiet_connect_cleaned disconnect_def cleanup_done quiet_ret
      quiet_startProcessing quiet_stopProcessing quiet_ws_onopen quiet_ws_onmessage
      quiet_ws_onclose_cleaned quiet_ws_onerror_cleaned quiet_getUserMedia_resolved
      quiet_getUserMedia_rejected quiet_addModule_resolved quiet_addModule_rejected
      quiet_source_onended quiet_worklet_onmessage quiet_cong [OF _ quiet_ws_onclose_cleaned])



lemma run_cleaned:
  assumes "isCleanedUp s" and "list_all (\<lambda>e. \<not> is_reconnect e) es"
  shows "isCleanedUp (fst (run atob s es)) \<and>
         filter teardown_only (snd (run atob s es)) = [] \<and>
         filter is_WsNew (snd (run atob s es)) = []"
  using assms
proof (induction es arbitrary: s)
  case Nil
  then show ?case by simp
next
  case (Cons e es)
  obtain s1 as t where f: "fire atob e s = (s1, as, t)"
    by (cases "fire atob e s")
  have q: "quiet s (fire atob e s)"
    using Cons.prems by (simp add: fire_cleaned)
  then have s1: "isCleanedUp s1" "filter teardown_only as = []" "filter is_WsNew as = []"
    using Cons.prems(1) by (simp_all add: quiet_def f)
  have ih: "isCleanedUp (fst (run atob s1 es)) \<and>
         filter teardown_only (snd (run atob s1 es)) = [] \<and>
         filter is_WsNew (snd (run atob s1 es)) = []"
    using Cons.IH [OF s1(1)] Cons.prems(2) by simp
  obtain s2 bs where r: "run atob s1 es = (s2, bs)"
    by (cases "run atob s1 es")
  show ?case
    using ih s1 by (simp add: f r)
qed








text \<open>
  C10.  Once \<open>cleanup\<close> has run the marker is set and \<open>connect\<close> returns at once with the
  state unchanged and nothing done; along any inputs without a \<open>reconnect\<close> the marker
  stays set, \<open>connect\<close> stays a no-op and no socket is constructed.
\<close>

theorem connect_is_noop_after_teardown:
  assumes "list_all (\<lambda>e. \<not> is_reconnect e) es"
  shows "isCleanedUp (fst (cleanup source s))
       \<and> connect (fst (cleanup source s)) = ret (fst (cleanup source s))
       \<and> isCleanedUp (fst (run atob (fst (cleanup source s)) es))
       \<and> connect (fst (run atob (fst (cleanup source s)) es)) =
           ret (fst (run atob (fst (cleanup source s)) es))
       \<and> occurrences is_WsNew (snd (run atob (fst (cleanup source s)) es)) = 0"
  using run_cleaned [OF cleanup_marks assms, where source1 = source and s1 = s and atob = atob]
  by (simp add: connect_def cleanup_marks occurrences_def)

theorem connect_is_noop_after_teardown_witness:
  "list_all (\<lambda>e. \<not> is_reconnect e) [Connect, WsOpen 0, Connect]
   \<and> isCleanedUp (fst (cleanup Client connected_state))
   \<and> connect (fst (cleanup Client connected_state)) = ret (fst (cleanup Client connected_state))
   \<and> occurrences is_WsNew
        (snd (run atob_sample (fst (cleanup Client connected_state)) [Connect, WsOpen 0, Connect])) = 0"
  using connect_is_noop_after_teardown
          [of "[Connect, WsOpen 0, Connect]" Client connected_state atob_sample]
  by (simp del: run.simps)

section \<open>Playback queue\<close>

lemma holds_ret: "R s s' \<Longrightarrow> holds R P s (ret s')"
  by (simp add: holds_def ret_def)

lemma holds_throw: "R s s' \<Longrightarrow> holds R P s (throw s')"
  by (simp add: holds_def throw_def)

lemma holds_emit: "R s s' \<Longrightarrow> P a \<Longrightarrow> holds R P s (emit a s')"
  by (simp add: holds_def emit_def)

lemma holds_seq:
  assumes "holds R P s r" and "\<And>s'. R s s' \<Longrightarrow> holds R P s (f s')"
  shows "holds R P s (seq r f)"
proof -
  obtain s1 as t where r: "r = (s1, as, t)"
    by (cases r)
  obtain s2 bs t2 where f: "f s1 = (s2, bs, t2)"
    by (cases "f s1")
  have 1: "R s s1" "list_all P as"
    using assms(1) by (simp_all add: holds_def r)
  then have "holds R P s (f s1)"
    using assms(2) by simp
  then have 2: "R s s2" "list_all P bs"
    by (simp_all add: holds_def f)
  show ?thesis
    using 1 2 by (simp add: holds_def seq_def r f)
qed

lemma holds_catch: "holds R P s r \<Longrightarrow> holds R P s (catch r)"
  by (cases r) (simp add: holds_def catch_def)

lemma playback_rel_refl: "playback_rel i s s"
  by (simp add: playback_rel_def pending_rel_def)

lemma playback_rel_frame [simp]:
  "playback_rel i s (s'\<lparr>isPlayingAudio := b\<rparr>) = playback_rel i s s'"
  "playback_rel i s (s'\<lparr>isPlaying := b\<rparr>) = playback_rel i s s'"
  "playback_rel i s (s'\<lparr>lastSentTTSEvent := b\<rparr>) = playback_rel i s s'"
  "playback_rel i s (s'\<lparr>audioContextRef := b\<rparr>) = playback_rel i s s'"
  "playback_rel i s (s'\<lparr>analyzerRef := b\<rparr>) = playback_rel i s s'"
  "playback_rel i s (s'\<lparr>sourceNodeRef := b\<rparr>) = playback_rel i s s'"
  "playback_rel i s (s'\<lparr>isPlayingRef := b\<rparr>) = playback_rel i s s'"
  "playback_rel i s (s'\<lparr>backendSampleRate := x\<rparr>) = playback_rel i s s'"
  "playback_rel i (s\<lparr>audioContextRef := b\<rparr>) s' = playback_rel i s s'"
  "playback_rel i (s\<lparr>backendSampleRate := x\<rparr>) s' = playback_rel i s s'"
  by (simp_all add: playback_rel_def pending_rel_def)

lemma playback_rel_queue:
  "playback_rel i s s' \<Longrightarrow> suffix q (audioBufferRef s') \<Longrightarrow>
   playback_rel i s (s'\<lparr>audioBufferRef := q\<rparr>)"
  unfolding playback_rel_def pending_rel_def using suffix_order.trans by auto

lemma playback_rel_stop:
  "playback_rel i s s' \<Longrightarrow> playback_rel i s (s'\<lparr>isStopReceived := True\<rparr>)"
  by (simp add: playback_rel_def pending_rel_def)

lemma pb_ws_send:
  "playback_rel i s s' \<Longrightarrow> holds (playback_rel i) not_WsClose s (ws_send j f s')"
  by (simp add: ws_send_def holds_throw holds_emit not_WsClose_def)

lemma pb_ref_send:
  "playback_rel i s s' \<Longrightarrow> holds (playback_rel i) not_WsClose s (ref_send f s')"
  by (simp add: ref_send_def pb_ws_send holds_ret split: option.split)

lemma pb_getOrCreateAudioContext:
  "playback_rel i s s' \<Longrightarrow> holds (playback_rel i) not_WsClose s (getOrCreateAudioContext s')"
  by (simp add: getOrCreateAudioContext_def holds_emit holds_ret not_WsClose_def)

lemma pb_initializeVisualizer:
  "playback_rel i s s' \<Longrightarrow> holds (playback_rel i) not_WsClose s (initializeVisualizer s')"
  by (simp add: initializeVisualizer_def holds_emit holds_ret not_WsClose_def)

lemma pb_play_buffer:
  "playback_rel i s s' \<Longrightarrow> holds (playback_rel i) not_WsClose s (play_buffer d s')"
  unfolding play_buffer_def
  by (auto intro!: holds_seq holds_throw holds_emit pb_initializeVisualizer
        simp add: not_WsClose_def)

lemma take_chunks_suffix:
  "take_chunks q n cs = (rest, chunks, m) \<Longrightarrow> suffix rest q"
  by (induction q n cs rule: take_chunks.induct) (auto simp add: suffix_Cons split: if_splits)

lemma pb_playNextChunk:
  "playback_rel i s s' \<Longrightarrow> holds (playback_rel i) not_WsClose s (playNextChunk s')"
  unfolding playNextChunk_def Let_def
  by (auto intro!: holds_seq holds_ret holds_throw pb_getOrCreateAudioContext pb_ref_send
        pb_play_buffer playback_rel_queue
        dest!: take_chunks_suffix split: prod.split)

lemma getOrCreateAudioContext_eq:
  "getOrCreateAudioContext s =
     (s\<lparr>audioContextRef := True\<rparr>, (if audioContextRef s then [] else [ContextNew]), False)"
  by (simp add: getOrCreateAudioContext_def outcome_defs)

lemma pb_processAudioChunk:
  "holds (playback_rel i) not_WsClose
     (s\<lparr>audioBufferRef := audioBufferRef s @
          (case decode_chunk atob p (backendSampleRate s) of None \<Rightarrow> [] | Some c \<Rightarrow> [c])\<rparr>)
     (processAudioChunk atob p s)"
proof (cases "decode_chunk atob p (backendSampleRate s)")
  case None
  then show ?thesis
    by (simp add: processAudioChunk_def getOrCreateAudioContext_eq seq_triple catch_def
        throw_def holds_def not_WsClose_def playback_rel_refl)
next
  case (Some c)
  define s1 where "s1 = s\<lparr>audioContextRef := True, audioBufferRef := audioBufferRef s @ [c]\<rparr>"
  have h: "holds (playback_rel i) not_WsClose s1
             (catch (if queued_samples s1 \<ge> bufferSize then playNextChunk s1 else ret s1))"
    by (intro holds_catch) (simp add: pb_playNextChunk holds_ret playback_rel_refl)
  obtain s2 bs t where r: "catch (if queued_samples s1 \<ge> bufferSize then playNextChunk s1 else ret s1) = (s2, bs, t)"
    by (cases "catch (if queued_samples s1 \<ge> bufferSize then playNextChunk s1 else ret s1)")
  have "processAudioChunk atob p s =
          (case catch (if queued_samples s1 \<ge> bufferSize then playNextChunk s1 else ret s1) of
             (s2, bs, t) \<Rightarrow> (s2, (if audioContextRef s then [] else [ContextNew]) @ bs, t))"
    unfolding s1_def using Some
    by (simp add: processAudioChunk_def getOrCreateAudioContext_eq seq_triple Let_def
          split del: if_split cong: if_cong)
  then have "processAudioChunk atob p s =
          (s2, (if audioContextRef s then [] else [ContextNew]) @ bs, t)"
    by (simp only: r prod.case)
  moreover have "holds (playback_rel i) not_WsClose s1
          (s2, (if audioContextRef s then [] else [ContextNew]) @ bs, t)"
    using h r by (simp add: holds_def not_WsClose_def)
  ultimately show ?thesis
    using Some by (simp add: s1_def holds_def playback_rel_def pending_rel_def)
qed

lemma pb_processAudioMessage:
  "holds (playback_rel i) not_WsClose
     (s\<lparr>audioBufferRef := audioBufferRef s @ inbound_chunk atob (WsMessage j (Parsed m))\<rparr>)
     (processAudioMessage atob m s)"
proof (cases "event m = ''media'' \<and> payload m \<noteq> None \<and> payload m \<noteq> Some []")
  case True
  define r where "r = (case sample_rate m of None \<Rightarrow> real SAMPLE_RATE | Some r \<Rightarrow> r)"
  have "holds (playback_rel i) not_WsClose
     (s\<lparr>backendSampleRate := r, audioBufferRef := audioBufferRef s @
          (case decode_chunk atob (the (payload m)) r of None \<Rightarrow> [] | Some c \<Rightarrow> [c])\<rparr>)
     (processAudioChunk atob (the (payload m)) (s\<lparr>backendSampleRate := r\<rparr>))"
    using pb_processAudioChunk [of i "s\<lparr>backendSampleRate := r\<rparr>" atob "the (payload m)"]
    by simp
  then have "holds (playback_rel i) not_WsClose
     (s\<lparr>audioBufferRef := audioBufferRef s @
          (case decode_chunk atob (the (payload m)) r of None \<Rightarrow> [] | Some c \<Rightarrow> [c])\<rparr>)
     (processAudioChunk atob (the (payload m)) (s\<lparr>backendSampleRate := r\<rparr>))"
    by (simp add: holds_def playback_rel_def pending_rel_def)
  then show ?thesis
    using True by (simp add: processAudioMessage_def r_def holds_catch)
next
  case False
  then have c: "inbound_chunk atob (WsMessage j (Parsed m)) = []"
    by auto
  have "holds (playback_rel i) not_WsClose s (processAudioMessage atob m s)"
    using False unfolding processAudioMessage_def
    by (auto intro!: holds_catch holds_ret pb_ref_send playback_rel_queue playback_rel_stop
          playback_rel_refl split: option.split)
  then show ?thesis
    unfolding c by simp
qed

lemma pb_ws_onmessage:
  "subseq (audioBufferRef (fst (ws_onmessage atob j d s)))
          (audioBufferRef s @ inbound_chunk atob (WsMessage j d))
   \<and> pending_rel i s (fst (ws_onmessage atob j d s))
   \<and> list_all not_WsClose (fst (snd (ws_onmessage atob j d s)))"
proof (cases "\<exists>m. d = Parsed m \<and> \<not> isCleanedUp s")
  case True
  then obtain m where d: "d = Parsed m" and c: "\<not> isCleanedUp s"
    by auto
  have "holds (playback_rel i) not_WsClose
     (s\<lparr>audioBufferRef := audioBufferRef s @ inbound_chunk atob (WsMessage j (Parsed m))\<rparr>)
     (processAudioMessage atob m s)"
    by (rule pb_processAudioMessage)
  then show ?thesis
    using c unfolding d
    by (simp add: ws_onmessage_def holds_def playback_rel_def pending_rel_def
          suffix_imp_subseq del: inbound_chunk.simps)
next
  case False
  then have "fst (ws_onmessage atob j d s) = s \<and> list_all not_WsClose (fst (snd (ws_onmessage atob j d s)))"
    by (cases d) (auto simp add: ws_onmessage_def outcome_defs not_WsClose_def)
  moreover have "subseq (audioBufferRef s) (audioBufferRef s @ inbound_chunk atob (WsMessage j d))"
    by (rule subseq_rev_drop_many) simp
  ultimately show ?thesis
    by (simp add: pending_rel_def del: inbound_chunk.simps)
qed


lemma source_onended_playing:
  assumes "audioBufferRef s \<noteq> []"
  shows "source_onended s = playNextChunk (s\<lparr>isPlayingAudio := False\<rparr>)"
  using assms by (simp add: source_onended_def Let_def)

lemma source_onended_drained:
  assumes "audioBufferRef s = []"
  shows "source_onended s =
           seq (ref_send (TTS_PLAYING False) (s\<lparr>isPlayingAudio := False, isPlaying := False\<rparr>))
             (\<lambda>s. if isStopReceived s then ref_close (s\<lparr>lastSentTTSEvent := False\<rparr>)
                   else ret (s\<lparr>lastSentTTSEvent := False\<rparr>))"
  using assms by (simp add: source_onended_def Let_def cong: if_cong)


lemma pb_source_onended:
  "subseq (audioBufferRef (fst (source_onended s))) (audioBufferRef s)
   \<and> pending_rel i s (fst (source_onended s))"
proof (cases "audioBufferRef s = []")
  case True
  then show ?thesis
    by (auto simp add: source_onended_drained ref_send_def ws_send_def ref_close_def ws_close_def
        outcome_defs pending_rel_def split: option.split)
next
  case False
  have "holds (playback_rel i) not_WsClose s (playNextChunk (s\<lparr>isPlayingAudio := False\<rparr>))"
    by (rule pb_playNextChunk) (simp add: playback_rel_refl)
  then show ?thesis
    using False
    by (simp add: source_onended_playing holds_def playback_rel_def suffix_imp_subseq)
qed


lemma fire_playback_queue:
  assumes "is_playback_input e"
  shows "subseq (audioBufferRef (fst (fire atob e s))) (audioBufferRef s @ inbound_chunk atob e)"
  using assms pb_ws_onmessage [of atob _ _ s 0] pb_source_onended [of s 0]
  by (cases e) simp_all


lemma run_playback_queue:
  assumes "list_all is_playback_input es"
  shows "subseq (audioBufferRef (fst (run atob s es))) (audioBufferRef s @ inbound_chunks atob es)"
  using assms
proof (induction es arbitrary: s)
  case Nil
  then show ?case
    by (simp add: inbound_chunks_def)
next
  case (Cons e es)
  obtain s1 as t where f: "fire atob e s = (s1, as, t)"
    by (cases "fire atob e s")
  obtain s2 bs where r: "run atob s1 es = (s2, bs)"
    by (cases "run atob s1 es")
  have 1: "subseq (audioBufferRef s1) (audioBufferRef s @ inbound_chunk atob e)"
    using fire_playback_queue [of e atob s] Cons.prems by (simp add: f)
  have 2: "subseq (audioBufferRef s2) (audioBufferRef s1 @ inbound_chunks atob es)"
    using Cons.IH [of s1] Cons.prems by (simp add: r)
  have "subseq (audioBufferRef s1 @ inbound_chunks atob es)
          ((audioBufferRef s @ inbound_chunk atob e) @ inbound_chunks atob es)"
    using 1 by (intro list_emb_append_mono) simp_all
  then have "subseq (audioBufferRef s2)
          ((audioBufferRef s @ inbound_chunk atob e) @ inbound_chunks atob es)"
    using 2 subseq_order.trans by blast
  then show ?case
    by (simp add: f r inbound_chunks_def)
qed





lemma barge_eq:
  assumes "event m = ''barge'' \<or> event m = ''BARGE''"
  shows "processAudioMessage atob m s = ret (s\<lparr>audioBufferRef := []\<rparr>)"
  using assms by (auto simp add: processAudioMessage_def outcome_defs)


text \<open>
  C6.  Processing an inbound \<open>barge\<close> or \<open>BARGE\<close> frame leaves the queue empty and
  the queued sample count at 0, whatever was queued before; and after any inbound
  messages and playback-ended events that follow, the queue holds only chunks decoded
  from the media frames received after the barge, in their order of arrival.
\<close>

theorem barge_empties_queue:
  assumes "event m = ''barge'' \<or> event m = ''BARGE''" and "list_all is_playback_input es"
  shows "audioBufferRef (fst (processAudioMessage atob m s)) = []
       \<and> queued_samples (fst (processAudioMessage atob m s)) = 0
       \<and> subseq (audioBufferRef (fst (run atob (fst (processAudioMessage atob m s)) es)))
                (inbound_chunks atob es)"
  using run_playback_queue [OF assms(2), of atob "s\<lparr>audioBufferRef := []\<rparr>"]
  by (simp add: barge_eq [OF assms(1)] ret_def queued_samples_def)

lemma barge_then_media:
  "audioBufferRef
     (fst (run atob_sample
        (fst (processAudioMessage atob_sample barge_message
                (connected_state\<lparr>audioBufferRef := [[1 / 2], [1 / 4]]\<rparr>)))
        [WsMessage 0 (Parsed media_message)])) = [[32769 / 65536]]
   \<and> inbound_chunks atob_sample [WsMessage 0 (Parsed media_message)] = [[32769 / 65536]]"
  by (simp add: ws_onmessage_def processAudioMessage_def processAudioChunk_def
      getOrCreateAudioContext_def queued_samples_def bufferSize_def SAMPLE_RATE_def
      CHANNELS_def BUFFER_DURATION_def barge_message_def media_message_def
      media_message_chunk [unfolded SAMPLE_RATE_def] inbound_chunks_def outcome_defs
      connected_fields Let_def)

theorem barge_empties_queue_witness:
  "event barge_message = ''barge''
   \<and> list_all is_playback_input [WsMessage 0 (Parsed media_message)]
   \<and> audioBufferRef (fst (processAudioMessage atob_sample barge_message
        (connected_state\<lparr>audioBufferRef := [[1 / 2], [1 / 4]]\<rparr>))) = []
   \<and> queued_samples (fst (processAudioMessage atob_sample barge_message
        (connected_state\<lparr>audioBufferRef := [[1 / 2], [1 / 4]]\<rparr>))) = 0
   \<and> subseq
        (audioBufferRef (fst (run atob_sample
           (fst (processAudioMessage atob_sample barge_message
                   (connected_state\<lparr>audioBufferRef := [[1 / 2], [1 / 4]]\<rparr>)))
           [WsMessage 0 (Parsed media_message)])))
        (inbound_chunks atob_sample [WsMessage 0 (Parsed media_message)])
   \<and> audioBufferRef (fst (run atob_sample
           (fst (processAudioMessage atob_sample barge_message
                   (connected_state\<lparr>audioBufferRef := [[1 / 2], [1 / 4]]\<rparr>)))
           [WsMessage 0 (Parsed media_message)])) = [[32769 / 65536]]"
  using barge_empties_queue
          [of barge_message "[WsMessage 0 (Parsed media_message)]" atob_sample
              "connected_state\<lparr>audioBufferRef := [[1 / 2], [1 / 4]]\<rparr>"]
        barge_then_media
  by (simp add: barge_message_def del: run.simps)







section \<open>Evaluated runs\<close>


text \<open>
  The branch of \<open>playNextChunk\<close> for an empty queue starts a source of silence, but
  no handler reaches it: \<open>processAudioChunk\<close> calls \<open>playNextChunk\<close> right after it
  has queued a chunk, and the \<open>onended\<close> handler only when the queue is not empty.
  Were it called on the connected hook with an empty queue, the silence would be 88200
  samples, twice \<open>bufferSize\<close>.
\<close>

lemma playNextChunk_silence_branch:
  "fst (snd (playNextChunk connected_state)) =
       [WsSend 0 (TTS_PLAYING False), SourceStart (replicate 88200 0)]
   \<and> length (replicate 88200 (0::real)) = 2 * bufferSize"
  by (simp add: connected_fields playNextChunk_def play_buffer_def initializeVisualizer_def
      getOrCreateAudioContext_def ref_send_def ws_send_def outcome_defs Let_def
      BUFFER_DURATION_def bufferSize_def SAMPLE_RATE_def CHANNELS_def toFloat64_rate)

text \<open>
  C9.  On the connected hook \<open>reconnect\<close> closes socket 0 and constructs socket 1.
  When the close event of socket 0 arrives, its handler finds the teardown marker
  reset and runs \<open>cleanup\<close>: socket 1, still connecting, is closed, \<open>websocketRef\<close> is
  emptied and \<open>onClose\<close> is called.
\<close>

theorem stale_close_tears_down_new_connection:
  "snd (run atob_sample connected_state [Reconnect False, WsClosed 0 False]) =
     [WsClose 0, ContextClose, StreamRelease, WorkletNodeDisconnect, CaptureSourceDisconnect,
      WsNew 1, WsClose 1, OnClose Server]
   \<and> websocketRef (fst (run atob_sample connected_state [Reconnect False])) = Some 1
   \<and> readyState (fst (run atob_sample connected_state [Reconnect False])) 1 = CONNECTING
   \<and> websocketRef (fst (run atob_sample connected_state [Reconnect False, WsClosed 0 False])) = None
   \<and> readyState (fst (run atob_sample connected_state [Reconnect False, WsClosed 0 False])) 1 = CLOSING
   \<and> isCleanedUp (fst (run atob_sample connected_state [Reconnect False, WsClosed 0 False]))"
  unfolding connected_state_def connected_run
  by (simp add: mounted_def init_def handler_defs outcome_defs Let_def)

text \<open>
  C2, as stated, fails: when \<open>getUserMedia\<close> is rejected \<open>isConnected\<close> is true and the
  socket is open.
\<close>

theorem getUserMedia_failure_counterexample:
  "snd (run atob_sample mounted [Connect, WsOpen 0, GumRejected 0]) =
     [WsNew 0, GetUserMedia 0, OnException]
   \<and> isConnected (fst (run atob_sample mounted [Connect, WsOpen 0, GumRejected 0]))
   \<and> readyState (fst (run atob_sample mounted [Connect, WsOpen 0, GumRejected 0])) 0 = OPEN"
  by (simp add: mounted_def init_def handler_defs outcome_defs Let_def)

text \<open>
  C2, amended: the \<open>onopen\<close> handler sets \<open>isConnected\<close> before it asks for the
  microphone.  A rejection of \<open>getUserMedia\<close> goes to \<open>onException\<close> and ends the
  handler: no capture is started, no start frame is sent, and the state, \<open>isConnected\<close>
  included, stays as it is.
\<close>

theorem getUserMedia_failure_aborts_open:
  assumes "\<not> isCleanedUp s" and "\<not> isAudioNodesConnected s"
  shows "fire atob (WsOpen i) s =
           (s\<lparr>readyState := (readyState s)(i := OPEN), isConnected := True\<rparr>,
            (if streamRef s then [TrackStop] else []) @ [GetUserMedia i], False)
       \<and> fire atob (GumRejected i) s' = (s', [OnException], True)
       \<and> isConnected (fst (run atob s [WsOpen i, GumRejected i]))
       \<and> snd (run atob s [WsOpen i, GumRejected i]) =
           (if streamRef s then [TrackStop] else []) @ [GetUserMedia i, OnException]"
  using assms
  by (simp add: ws_onopen_def setupAudioStream_def getUserMedia_rejected_def outcome_defs)

theorem getUserMedia_failure_aborts_open_witness:
  "\<not> isCleanedUp (fst (run atob_sample mounted [Connect]))
   \<and> \<not> isAudioNodesConnected (fst (run atob_sample mounted [Connect]))
   \<and> isConnected (fst (run atob_sample (fst (run atob_sample mounted [Connect]))
                          [WsOpen 0, GumRejected 0]))
   \<and> snd (run atob_sample (fst (run atob_sample mounted [Connect])) [WsOpen 0, GumRejected 0]) =
        [GetUserMedia 0, OnException]"
  using getUserMedia_failure_aborts_open
          [of "fst (run atob_sample mounted [Connect])" atob_sample 0]
  by (simp add: mounted_def init_def connect_def new_socket_def outcome_defs Let_def)

end
